theory Spec2Isabelle
  imports Complex_Main
begin

section \<open>Numbers and arrays\<close>

text \<open>
  The module \<^verbatim>\<open>_preproc_utilities.py\<close> computes on numpy arrays of IEEE doubles. An array
  entry is modelled as a real number, one of the two infinities, or not-a-number. What
  numpy does with the special values is written out: not-a-number propagates and
  compares false with everything, a division by zero yields an infinity or
  not-a-number and no exception (a zero divisor is taken as \<open>+0\<close>).

  An operation on finite entries returns the exact real result. That is the result of
  the IEEE operation whenever the exact result is itself a double (\<open>is_double\<close> below):
  the operations \<open>+\<close>, \<open>-\<close>, \<open>*\<close>, \<open>/\<close> are correctly rounded, and rounding a double gives
  that double. Where the exact result is not a double the program rounds it, or
  overflows to an infinity, and the model does not. A statement about computed values
  therefore speaks of the program on the inputs on which no operation rounds; the
  statements below that need this say so in their hypotheses.
\<close>

datatype fl = Fl real | PosInf | NegInf | NaN

datatype error = ValueError | TypeError | IndexError | UnboundLocalError

fun isnan :: "fl \<Rightarrow> bool" where
  "isnan NaN = True"
| "isnan _ = False"

fun fl_neg :: "fl \<Rightarrow> fl" where
  "fl_neg (Fl a) = Fl (- a)"
| "fl_neg PosInf = NegInf"
| "fl_neg NegInf = PosInf"
| "fl_neg NaN = NaN"

fun fl_add :: "fl \<Rightarrow> fl \<Rightarrow> fl" where
  "fl_add NaN _ = NaN"
| "fl_add _ NaN = NaN"
| "fl_add (Fl a) (Fl b) = Fl (a + b)"
| "fl_add PosInf NegInf = NaN"
| "fl_add NegInf PosInf = NaN"
| "fl_add PosInf _ = PosInf"
| "fl_add _ PosInf = PosInf"
| "fl_add NegInf _ = NegInf"
| "fl_add _ NegInf = NegInf"

definition fl_sub :: "fl \<Rightarrow> fl \<Rightarrow> fl" where
  "fl_sub a b = fl_add a (fl_neg b)"

text \<open>The infinity with the sign of a non-zero real.\<close>

definition signed_inf :: "real \<Rightarrow> fl" where
  "signed_inf a = (if a = 0 then NaN else if 0 < a then PosInf else NegInf)"

fun fl_mul :: "fl \<Rightarrow> fl \<Rightarrow> fl" where
  "fl_mul NaN _ = NaN"
| "fl_mul _ NaN = NaN"
| "fl_mul (Fl a) (Fl b) = Fl (a * b)"
| "fl_mul (Fl a) PosInf = signed_inf a"
| "fl_mul (Fl a) NegInf = signed_inf (- a)"
| "fl_mul PosInf (Fl b) = signed_inf b"
| "fl_mul NegInf (Fl b) = signed_inf (- b)"
| "fl_mul PosInf PosInf = PosInf"
| "fl_mul NegInf NegInf = PosInf"
| "fl_mul PosInf NegInf = NegInf"
| "fl_mul NegInf PosInf = NegInf"

text \<open>numpy's true division: \<open>x / 0\<close> is an infinity, \<open>0 / 0\<close> is not-a-number.\<close>

fun fl_div :: "fl \<Rightarrow> fl \<Rightarrow> fl" where
  "fl_div NaN _ = NaN"
| "fl_div _ NaN = NaN"
| "fl_div (Fl a) (Fl b) = (if b = 0 then signed_inf a else Fl (a / b))"
| "fl_div (Fl a) _ = Fl 0"
| "fl_div PosInf (Fl b) = (if 0 \<le> b then PosInf else NegInf)"
| "fl_div NegInf (Fl b) = (if 0 \<le> b then NegInf else PosInf)"
| "fl_div _ _ = NaN"

fun fl_abs :: "fl \<Rightarrow> fl" where
  "fl_abs (Fl a) = Fl \<bar>a\<bar>"
| "fl_abs NaN = NaN"
| "fl_abs _ = PosInf"

definition fl_square :: "fl \<Rightarrow> fl" where
  "fl_square a = fl_mul a a"

fun fl_sqrt :: "fl \<Rightarrow> fl" where
  "fl_sqrt (Fl a) = (if a < 0 then NaN else Fl (sqrt a))"
| "fl_sqrt PosInf = PosInf"
| "fl_sqrt _ = NaN"

fun fl_lt :: "fl \<Rightarrow> fl \<Rightarrow> bool" where
  "fl_lt NaN _ = False"
| "fl_lt _ NaN = False"
| "fl_lt (Fl a) (Fl b) = (a < b)"
| "fl_lt _ NegInf = False"
| "fl_lt NegInf _ = True"
| "fl_lt PosInf _ = False"
| "fl_lt _ PosInf = True"

definition fl_gt :: "fl \<Rightarrow> fl \<Rightarrow> bool" where
  "fl_gt a b = fl_lt b a"

text \<open>The comparison \<open>==\<close>: not-a-number equals nothing, itself included.\<close>

definition fl_eq :: "fl \<Rightarrow> fl \<Rightarrow> bool" where
  "fl_eq a b = (a = b \<and> \<not> isnan a)"

definition fl_le :: "fl \<Rightarrow> fl \<Rightarrow> bool" where
  "fl_le a b = (fl_lt a b \<or> fl_eq a b)"

text \<open>
  The finite IEEE doubles: an integer of magnitude below \<open>2\<^sup>5\<^sup>3\<close> times a power of two
  from \<open>2\<^sup>-\<^sup>1\<^sup>0\<^sup>7\<^sup>4\<close> to \<open>2\<^sup>9\<^sup>7\<^sup>1\<close>. Infinities and not-a-number are doubles too.
\<close>

definition is_double :: "real \<Rightarrow> bool" where
  "is_double x =
     (\<exists>m \<in> {- (2 ^ 53 - 1) .. 2 ^ 53 - 1 :: int}.
        (\<exists>e \<in> {0 .. 971 :: nat}. x = of_int m * 2 ^ e)
        \<or> (\<exists>k \<in> {0 .. 1074 :: nat}. x = of_int m / 2 ^ k))"

fun fl_double :: "fl \<Rightarrow> bool" where
  "fl_double (Fl a) = is_double a"
| "fl_double _ = True"

text \<open>
  An array is one-dimensional (shape \<open>(n,)\<close>) or two-dimensional (shape \<open>(n, p)\<close>, a list
  of \<open>n\<close> rows with the number of columns kept beside it, so that a matrix without rows
  still has its \<open>p\<close>). A matrix is well formed when every row has \<open>p\<close> entries.
\<close>

datatype ndarray = Vec "fl list" | Mat nat "fl list list"

fun wf :: "ndarray \<Rightarrow> bool" where
  "wf (Vec xs) = True"
| "wf (Mat p rows) = list_all (\<lambda>r. length r = p) rows"

fun entries :: "ndarray \<Rightarrow> fl list" where
  "entries (Vec xs) = xs"
| "entries (Mat p rows) = concat rows"

text \<open>
  The number of columns: a one-dimensional array counts as one column (\<open>p = 1\<close> in
  \<open>l1median\<close> and \<open>scale_data\<close>).
\<close>

fun ncols :: "ndarray \<Rightarrow> nat" where
  "ncols (Vec xs) = 1"
| "ncols (Mat p rows) = p"

fun is_fin :: "fl \<Rightarrow> bool" where
  "is_fin (Fl a) = True"
| "is_fin _ = False"

text \<open>\<^verbatim>\<open>np.isnan(X).any()\<close>\<close>

definition isnan_any :: "ndarray \<Rightarrow> bool" where
  "isnan_any X = list_ex isnan (entries X)"

definition column :: "nat \<Rightarrow> fl list list \<Rightarrow> fl list" where
  "column j rows = map (\<lambda>r. r ! j) rows"

text \<open>The slices along axis 0: a one-dimensional array is a single slice.\<close>

fun cols :: "ndarray \<Rightarrow> fl list list" where
  "cols (Vec xs) = [xs]"
| "cols (Mat p rows) = map (\<lambda>j. column j rows) [0..<p]"

text \<open>\<^verbatim>\<open>np.sort\<close> orders ascending and puts not-a-number last.\<close>

definition sort_le :: "fl \<Rightarrow> fl \<Rightarrow> bool" where
  "sort_le a b = (isnan b \<or> fl_le a b)"

fun np_insort :: "fl \<Rightarrow> fl list \<Rightarrow> fl list" where
  "np_insort x [] = [x]"
| "np_insort x (y # ys) = (if sort_le x y then x # y # ys else y # np_insort x ys)"

fun np_sort :: "fl list \<Rightarrow> fl list" where
  "np_sort [] = []"
| "np_sort (x # xs) = np_insort x (np_sort xs)"

text \<open>\<^verbatim>\<open>np.sum\<close> and \<^verbatim>\<open>np.nansum\<close> of a one-dimensional slice.\<close>

definition np_sum :: "fl list \<Rightarrow> fl" where
  "np_sum xs = foldr fl_add xs (Fl 0)"

definition np_nansum :: "fl list \<Rightarrow> fl" where
  "np_nansum xs = np_sum (filter (\<lambda>x. \<not> isnan x) xs)"

text \<open>
  \<^verbatim>\<open>np.mean\<close> and \<^verbatim>\<open>np.nanmean\<close> of a slice: the mean of nothing is \<open>0 / 0\<close>,
  not-a-number (numpy warns and does not raise).
\<close>

definition np_mean :: "fl list \<Rightarrow> fl" where
  "np_mean xs = fl_div (np_sum xs) (Fl (real (length xs)))"

definition np_nanmean :: "fl list \<Rightarrow> fl" where
  "np_nanmean xs = np_mean (filter (\<lambda>x. \<not> isnan x) xs)"

text \<open>
  \<^verbatim>\<open>np.median\<close> of a slice: not-a-number when the slice is empty or holds one; the
  middle value of the sorted slice, or the mean of the two middle values.
\<close>

definition np_median :: "fl list \<Rightarrow> fl" where
  "np_median xs =
     (let n = length xs; s = np_sort xs
      in if n = 0 \<or> list_ex isnan xs then NaN
         else if odd n then s ! (n div 2)
         else fl_div (fl_add (s ! (n div 2 - 1)) (s ! (n div 2))) (Fl 2))"

definition np_nanmedian :: "fl list \<Rightarrow> fl" where
  "np_nanmedian xs = np_median (filter (\<lambda>x. \<not> isnan x) xs)"

section \<open>Scalar and vector statistics\<close>

text \<open>
  \<^verbatim>\<open>_handle_zeros_in_scale(scale, copy=True)\<close>: the argument is a scalar or an array.
  (The leading underscore of the source's private names is dropped.) The result is a
  new value in the model, so \<open>copy\<close> has nothing to decide. \<open>zero_to_one\<close> is what
  the assignment \<^verbatim>\<open>scale[scale == 0.0] = 1.0\<close> does to one entry.
\<close>

datatype numarg = Scalar fl | Array "fl list"

definition zero_to_one :: "fl \<Rightarrow> fl" where
  "zero_to_one d = (if fl_eq d (Fl 0) then Fl 1 else d)"

fun handle_zeros_in_scale :: "numarg \<Rightarrow> numarg" where
  "handle_zeros_in_scale (Scalar s) = Scalar (zero_to_one s)"
| "handle_zeros_in_scale (Array s) = Array (map zero_to_one s)"

text \<open>\<^verbatim>\<open>_check_trimming(t)\<close>: raises, or returns nothing.\<close>

definition check_trimming :: "fl \<Rightarrow> error + unit" where
  "check_trimming t =
     (if fl_gt t (Fl (99 / 100)) \<or> fl_lt t (Fl 0) then Inl ValueError else Inr ())"

text \<open>\<^verbatim>\<open>median(X)\<close>: the column-wise median as a one-dimensional array.\<close>

definition median :: "ndarray \<Rightarrow> fl list" where
  "median X = (if isnan_any X then map np_nanmedian (cols X) else map np_median (cols X))"

text \<open>
  \<^verbatim>\<open>mean(X, trimming=0)\<close> on its branch \<open>trimming == 0\<close>, the only one this module's
  own call (in \<open>kstepLTS\<close>) takes; the other branch hands over to scipy's
  \<open>trim_mean\<close>.
\<close>

definition mean :: "ndarray \<Rightarrow> fl list" where
  "mean X = (if isnan_any X then map np_nanmean (cols X) else map np_mean (cols X))"

section \<open>L1-median\<close>

text \<open>\<^verbatim>\<open>_euclidnorm(x)\<close>\<close>

definition euclidnorm :: "fl list \<Rightarrow> fl" where
  "euclidnorm x =
     (if list_ex isnan x then fl_sqrt (np_nansum (map fl_square x))
      else fl_sqrt (np_sum (map fl_square x)))"

text \<open>
  \<^verbatim>\<open>_diffmat_objective(a, X)\<close> on the rows of a matrix: the candidate point \<open>a\<close> has
  one entry per column, as the optimizer passes it.
\<close>

definition diffmat_objective :: "fl list \<Rightarrow> fl list list \<Rightarrow> fl list list" where
  "diffmat_objective a rows = map (\<lambda>r. map2 fl_sub r a) rows"

text \<open>\<^verbatim>\<open>_l1m_objective(a, X)\<close>\<close>

definition l1m_objective :: "fl list \<Rightarrow> nat \<Rightarrow> fl list list \<Rightarrow> fl" where
  "l1m_objective a p rows =
     (if isnan_any (Mat p rows) then np_nansum (map euclidnorm (diffmat_objective a rows))
      else np_sum (map euclidnorm (diffmat_objective a rows)))"

text \<open>\<^verbatim>\<open>np.array(v).reshape(-1)\<close> of a scalar or an array.\<close>

fun the_array :: "numarg \<Rightarrow> fl list" where
  "the_array (Scalar d) = [d]"
| "the_array (Array ds) = ds"

text \<open>
  \<^verbatim>\<open>_l1m_jacobian(a, X)\<close>. \<open>l1m_jacobian_dists\<close> is the variable \<open>dists\<close> after line 151,
  the divisor of line 152; \<open>l1m_jacobian_dX\<close> is \<open>dX\<close> after that division.
\<close>

definition l1m_jacobian_dists :: "fl list \<Rightarrow> fl list list \<Rightarrow> fl list" where
  "l1m_jacobian_dists a rows =
     the_array (handle_zeros_in_scale (Array (map euclidnorm (diffmat_objective a rows))))"

definition l1m_jacobian_dX :: "fl list \<Rightarrow> fl list list \<Rightarrow> fl list list" where
  "l1m_jacobian_dX a rows =
     map (\<lambda>(r, d). map (\<lambda>x. fl_div x d) r)
       (zip (diffmat_objective a rows) (l1m_jacobian_dists a rows))"

definition l1m_jacobian :: "fl list \<Rightarrow> nat \<Rightarrow> fl list list \<Rightarrow> fl list" where
  "l1m_jacobian a p rows =
     (if isnan_any (Mat p rows)
      then map (\<lambda>c. fl_neg (np_nansum c)) (cols (Mat p (l1m_jacobian_dX a rows)))
      else map (\<lambda>c. fl_neg (np_sum c)) (cols (Mat p (l1m_jacobian_dX a rows))))"

text \<open>
  \<^verbatim>\<open>scipy.optimize.minimize\<close> is not part of this module: it is a parameter, a function
  from the objective, its Jacobian and the starting point to the field \<open>x\<close> of the
  result, the only field \<open>l1median\<close> reads. The method, the tolerance and the options
  are fixed inside that parameter.
\<close>

type_synonym minimizer = "(fl list \<Rightarrow> fl) \<Rightarrow> (fl list \<Rightarrow> fl list) \<Rightarrow> fl list \<Rightarrow> fl list"

text \<open>\<^verbatim>\<open>_l1median(X, x0, ...)\<close> followed by \<^verbatim>\<open>.x\<close>\<close>

definition l1median_inner :: "minimizer \<Rightarrow> nat \<Rightarrow> fl list list \<Rightarrow> fl list \<Rightarrow> fl list" where
  "l1median_inner minimize p rows x0 =
     minimize (\<lambda>a. l1m_objective a p rows) (\<lambda>a. l1m_jacobian a p rows) x0"

fun rows_of :: "ndarray \<Rightarrow> fl list list" where
  "rows_of (Vec xs) = map (\<lambda>x. [x]) xs"
| "rows_of (Mat p rows) = rows"

text \<open>
  \<^verbatim>\<open>l1median(X, **kwargs)\<close>. Of the keyword arguments the model keeps \<open>x0\<close>, absent
  (\<open>None\<close>) or given. The local variable \<open>x0\<close> is assigned only when the keyword is
  absent; reading it unassigned raises.
\<close>

definition l1median :: "minimizer \<Rightarrow> ndarray \<Rightarrow> fl list option \<Rightarrow> error + fl list" where
  "l1median minimize X x0_kw =
     (let x0 = (case x0_kw of None \<Rightarrow> Some (median X) | Some u \<Rightarrow> None);
          p = ncols X
      in if p < 2 then Inr (median X)
         else (case x0 of
                 None \<Rightarrow> Inl UnboundLocalError
               | Some v \<Rightarrow> Inr (l1median_inner minimize p (rows_of X) v)))"

section \<open>K-step LTS\<close>

text \<open>The squared distances of the rows to \<open>m1\<close> (lines 220 to 223).\<close>

definition lts_dists :: "nat \<Rightarrow> fl list list \<Rightarrow> fl list \<Rightarrow> fl list" where
  "lts_dists p rows m1 =
     (if isnan_any (Mat p rows)
      then map (\<lambda>r. np_nansum (map fl_square (map2 fl_sub r m1))) rows
      else map (\<lambda>r. np_sum (map fl_square (map2 fl_sub r m1))) rows)"

text \<open>
  Line 224: the index is \<open>int(floor((n + 1) / 2)) - 1\<close>, which is \<open>-1\<close> for an array
  without rows, and indexing the empty sorted array raises.
\<close>

definition lts_cutdist :: "fl list \<Rightarrow> error + fl" where
  "lts_cutdist dists =
     (let n = length dists
      in if n = 0 then Inl IndexError else Inr (np_sort dists ! ((n + 1) div 2 - 1)))"

text \<open>Line 225 and the row selection of line 226.\<close>

definition lts_hsubset :: "fl list \<Rightarrow> fl \<Rightarrow> nat list" where
  "lts_hsubset dists cutdist = filter (\<lambda>i. fl_le (dists ! i) cutdist) [0..<length dists]"

definition lts_step :: "nat \<Rightarrow> fl list list \<Rightarrow> fl list \<Rightarrow> error + fl list" where
  "lts_step p rows m1 =
     (let dists = lts_dists p rows m1
      in case lts_cutdist dists of
           Inl e \<Rightarrow> Inl e
         | Inr cutdist \<Rightarrow>
             Inr (mean (Mat p (map (\<lambda>i. rows ! i) (lts_hsubset dists cutdist)))))"

text \<open>
  Python's builtin \<open>max\<close> over the entries: it keeps the first entry and replaces it
  by a later one that compares greater; it raises on nothing.
\<close>

definition py_max :: "fl list \<Rightarrow> error + fl" where
  "py_max xs =
     (case xs of [] \<Rightarrow> Inl ValueError
      | x # ys \<Rightarrow> Inr (foldl (\<lambda>cur y. if fl_gt y cur then y else cur) x ys))"

text \<open>\<^verbatim>\<open>max(abs(m1 - m2))\<close> of line 227.\<close>

definition max_change :: "fl list \<Rightarrow> fl list \<Rightarrow> error + fl" where
  "max_change m1 m2 = py_max (map fl_abs (map2 fl_sub m1 m2))"

text \<open>The loop of lines 219 to 229, on the variables it changes.\<close>

function kstep_loop ::
  "nat \<Rightarrow> fl list list \<Rightarrow> int \<Rightarrow> fl \<Rightarrow> fl list \<Rightarrow> fl list \<Rightarrow> int \<Rightarrow> bool \<Rightarrow> error + fl list" where
  "kstep_loop p rows maxit tol m1 m2 iteration unconverged =
     (if unconverged \<and> iteration < maxit then
        (case lts_step p rows m1 of
           Inl e \<Rightarrow> Inl e
         | Inr m2' \<Rightarrow>
             (case max_change m1 m2' of
                Inl e \<Rightarrow> Inl e
              | Inr c \<Rightarrow> kstep_loop p rows maxit tol m2' m2' (iteration + 1) (fl_gt c tol)))
      else Inr m2)"
  by pat_completeness auto
termination
  by (relation "measure (\<lambda>(p, rows, maxit, tol, m1, m2, iteration, unconverged).
        nat (maxit - iteration))") auto

declare kstep_loop.simps [simp del]

text \<open>\<^verbatim>\<open>kstepLTS(X, maxit=5, tol=1e-10)\<close>: a one-dimensional \<open>X\<close> has no \<open>n, p\<close> to unpack.\<close>

definition kstepLTS :: "minimizer \<Rightarrow> ndarray \<Rightarrow> int \<Rightarrow> fl \<Rightarrow> error + fl list" where
  "kstepLTS minimize X maxit tol =
     (case X of
        Vec xs \<Rightarrow> Inl ValueError
      | Mat p rows \<Rightarrow>
          (case l1median minimize X None of
             Inl e \<Rightarrow> Inl e
           | Inr m1 \<Rightarrow> kstep_loop p rows maxit tol m1 m1 0 True))"

subsection \<open>The estimator as the specification words it\<close>

text \<open>
  The specification's state machine, for a matrix with at least one row, written
  without the functions of the program. The numbers among some entries, and the total
  of some entries: not-a-number when one of them is, infinite when one of them is,
  and the sum of the numbers otherwise.
\<close>

fun numbers :: "fl list \<Rightarrow> real list" where
  "numbers [] = []"
| "numbers (Fl a # xs) = a # numbers xs"
| "numbers (x # xs) = numbers xs"

definition spec_total :: "fl list \<Rightarrow> fl" where
  "spec_total ds =
     (if list_ex isnan ds then NaN
      else if list_ex (\<lambda>d. \<not> is_fin d) ds then PosInf
      else Fl (sum_list (numbers ds)))"

text \<open>
  A row's squared distance to \<open>m1\<close>: the total of the squared coordinate differences,
  NaN-aware (the terms that are not-a-number left out) when the matrix holds a
  not-a-number.
\<close>

definition spec_sq_dist :: "nat \<Rightarrow> fl list list \<Rightarrow> fl list \<Rightarrow> fl list \<Rightarrow> fl" where
  "spec_sq_dist p rows m1 r =
     (let sq = map fl_square (map2 fl_sub r m1)
      in if list_ex isnan (concat rows) then spec_total (filter (\<lambda>d. \<not> isnan d) sq)
         else spec_total sq)"

text \<open>
  The cut distance: the value at rank \<open>\<lfloor>(n + 1) / 2\<rfloor>\<close>, counted from one, of the sorted
  distances.
\<close>

definition spec_cutdist :: "nat \<Rightarrow> fl list list \<Rightarrow> fl list \<Rightarrow> fl" where
  "spec_cutdist p rows m1 =
     np_sort (map (spec_sq_dist p rows m1) rows) ! ((length rows + 1) div 2 - 1)"

text \<open>The h-subset: all rows whose distance is at most the cut distance.\<close>

definition spec_hsubset :: "nat \<Rightarrow> fl list list \<Rightarrow> fl list \<Rightarrow> fl list list" where
  "spec_hsubset p rows m1 =
     filter (\<lambda>r. fl_le (spec_sq_dist p rows m1 r) (spec_cutdist p rows m1)) rows"

text \<open>
  The NaN-aware mean of a column: the sum of its numbers divided by how many they are,
  and not-a-number when it holds none.
\<close>

definition spec_nan_mean :: "fl list \<Rightarrow> fl" where
  "spec_nan_mean c =
     (if numbers c = [] then NaN else Fl (sum_list (numbers c) / real (length (numbers c))))"

text \<open>One iteration: \<open>m2\<close> is the column mean of the h-subset rows.\<close>

definition spec_lts_step :: "nat \<Rightarrow> fl list list \<Rightarrow> fl list \<Rightarrow> fl list" where
  "spec_lts_step p rows m1 =
     map (\<lambda>j. spec_nan_mean (map (\<lambda>r. r ! j) (spec_hsubset p rows m1))) [0..<p]"



text \<open>The estimate after \<open>k\<close> iterations from the seed \<open>m0\<close>.\<close>

definition spec_iterate :: "nat \<Rightarrow> fl list list \<Rightarrow> fl list \<Rightarrow> nat \<Rightarrow> fl list" where
  "spec_iterate p rows m0 k = (spec_lts_step p rows ^^ k) m0"

text \<open>\<open>X + v\<close> on one row (and \<open>m + v\<close> on a location vector): the translation by \<open>v\<close>.\<close>

definition shift :: "fl list \<Rightarrow> fl list \<Rightarrow> fl list" where
  "shift v r = map2 fl_add r v"

fun finite_or_nan :: "fl \<Rightarrow> bool" where
  "finite_or_nan (Fl a) = True"
| "finite_or_nan NaN = True"
| "finite_or_nan _ = False"

text \<open>
  Inputs on which the program computes without rounding. For \<open>scale_data\<close> and its
  inverse on one entry \<open>x\<close> with location \<open>a\<close> and scale \<open>d\<close>: the exact difference and the
  exact quotient are doubles (the product and the sum of the inverse transform are then
  \<open>x - a\<close> and \<open>x\<close>). For \<open>kstepLTS\<close>: integers of magnitude at most \<open>2\<^sup>2\<^sup>0\<close>, whose
  differences, squares and sums over at most \<open>2\<^sup>2\<^sup>0\<close> rows are integers below \<open>2\<^sup>5\<^sup>3\<close>.
\<close>

definition exact_scaling :: "fl \<Rightarrow> fl \<Rightarrow> fl \<Rightarrow> bool" where
  "exact_scaling x a d = (fl_double (fl_sub x a) \<and> fl_double (fl_div (fl_sub x a) d))"

fun small_int :: "fl \<Rightarrow> bool" where
  "small_int (Fl a) = (of_int \<lfloor>a\<rfloor> = a \<and> \<bar>a\<bar> \<le> 2 ^ 20)"
| "small_int _ = False"

fun small_int_or_nan :: "fl \<Rightarrow> bool" where
  "small_int_or_nan NaN = True"
| "small_int_or_nan x = small_int x"

section \<open>scaleTau2\<close>

text \<open>
  The standard normal distribution function, density and quantile function
  (\<^verbatim>\<open>sps.norm.cdf\<close>, \<^verbatim>\<open>pdf\<close>, \<^verbatim>\<open>ppf\<close>) belong to scipy: they are parameters.
  \<open>Erho\<close> and \<open>Es2\<close> are the two local functions of lines 269 to 276.
\<close>

definition Erho :: "(real \<Rightarrow> real) \<Rightarrow> (real \<Rightarrow> real) \<Rightarrow> real \<Rightarrow> real" where
  "Erho cdf pdf b = 2 * ((1 - b\<^sup>2) * cdf b - b * pdf b + b\<^sup>2) - 1"

definition Es2 :: "(real \<Rightarrow> real) \<Rightarrow> (real \<Rightarrow> real) \<Rightarrow> (real \<Rightarrow> real) \<Rightarrow> real \<Rightarrow> real" where
  "Es2 cdf pdf ppf c2 = Erho cdf pdf (c2 * ppf (3 / 4))"

datatype consistency = CFalse | CTrue | FiniteSample

text \<open>
  The variable \<open>summ\<close>: \<^verbatim>\<open>np.nansum\<close> or \<^verbatim>\<open>np.sum\<close>, chosen at line 249 and called
  without an axis, so it adds up every entry of its argument.
\<close>

definition summ :: "bool \<Rightarrow> fl list list \<Rightarrow> fl" where
  "summ nan M = (if nan then np_nansum (concat M) else np_sum (concat M))"

text \<open>The variables \<open>sigma0\<close> (line 255) and \<open>mu\<close> (lines 256 to 262).\<close>

definition scaleTau2_xc :: "nat \<Rightarrow> fl list list \<Rightarrow> fl list list" where
  "scaleTau2_xc p rows = map (\<lambda>r. map fl_abs (map2 fl_sub r (median (Mat p rows)))) rows"

definition scaleTau2_sigma0 :: "nat \<Rightarrow> fl list list \<Rightarrow> fl list" where
  "scaleTau2_sigma0 p rows = median (Mat p (scaleTau2_xc p rows))"

definition scaleTau2_w :: "nat \<Rightarrow> fl list list \<Rightarrow> real \<Rightarrow> fl list list" where
  "scaleTau2_w p rows c1 =
     (let xc = map (\<lambda>r. map2 fl_div r (map (\<lambda>s. fl_mul s (Fl c1)) (scaleTau2_sigma0 p rows)))
                 (scaleTau2_xc p rows);
          w = map (map (\<lambda>u. fl_sub (Fl 1) (fl_square u))) xc
      in map (map (\<lambda>v. fl_square (fl_div (fl_add (fl_abs v) v) (Fl 2)))) w)"

definition scaleTau2_mu :: "nat \<Rightarrow> fl list list \<Rightarrow> real \<Rightarrow> numarg" where
  "scaleTau2_mu p rows c1 =
     (if 0 < c1 then
        (let nan = isnan_any (Mat p rows); w = scaleTau2_w p rows c1
         in Scalar (fl_div (summ nan (map (\<lambda>(r, wr). map2 fl_mul r wr) (zip rows w)))
                           (summ nan w)))
      else Array (median (Mat p rows)))"

text \<open>The variable \<open>rho\<close> after line 265: the squares of the standardized values.\<close>

definition scaleTau2_rho0 :: "nat \<Rightarrow> fl list list \<Rightarrow> real \<Rightarrow> fl list list" where
  "scaleTau2_rho0 p rows c1 =
     (let x1 = (case scaleTau2_mu p rows c1 of
                  Scalar v \<Rightarrow> map (map (\<lambda>x. fl_sub x v)) rows
                | Array vs \<Rightarrow> map (\<lambda>r. map2 fl_sub r vs) rows);
          x2 = map (\<lambda>r. map2 fl_div r (scaleTau2_sigma0 p rows)) x1
      in map (map fl_square) x2)"

text \<open>
  The variable \<open>rho\<close> after line 266. \<^verbatim>\<open>np.where(rho > c2**2)[0]\<close> is the array of the
  row indices of the entries above \<open>c2\<^sup>2\<close>, and the assignment through it writes
  \<open>c2\<^sup>2\<close> into each of those rows.
\<close>

definition scaleTau2_rho :: "nat \<Rightarrow> fl list list \<Rightarrow> real \<Rightarrow> real \<Rightarrow> fl list list" where
  "scaleTau2_rho p rows c1 c2 =
     map (\<lambda>r. if list_ex (\<lambda>v. fl_gt v (Fl (c2\<^sup>2))) r then map (\<lambda>v. Fl (c2\<^sup>2)) r else r)
       (scaleTau2_rho0 p rows c1)"

text \<open>The normalizing constant \<open>nEs2\<close> of lines 267 to 283.\<close>

definition scaleTau2_nEs2 ::
  "(real \<Rightarrow> real) \<Rightarrow> (real \<Rightarrow> real) \<Rightarrow> (real \<Rightarrow> real) \<Rightarrow> nat \<Rightarrow> real \<Rightarrow> consistency \<Rightarrow> real" where
  "scaleTau2_nEs2 cdf pdf ppf n c2 consistency =
     (case consistency of
        CFalse \<Rightarrow> real n
      | CTrue \<Rightarrow> real n * Es2 cdf pdf ppf c2
      | FiniteSample \<Rightarrow> (real n - 2) * Es2 cdf pdf ppf c2)"

text \<open>\<^verbatim>\<open>scaleTau2(x0, c1=4.5, c2=3, consistency=True)\<close>\<close>

definition scaleTau2 ::
  "(real \<Rightarrow> real) \<Rightarrow> (real \<Rightarrow> real) \<Rightarrow> (real \<Rightarrow> real) \<Rightarrow> ndarray \<Rightarrow> real \<Rightarrow> real \<Rightarrow> consistency
     \<Rightarrow> error + fl list" where
  "scaleTau2 cdf pdf ppf x0 c1 c2 consistency =
     (case x0 of
        Vec xs \<Rightarrow> Inl ValueError
      | Mat p rows \<Rightarrow>
          Inr (map (\<lambda>s. fl_mul s
                 (fl_sqrt (fl_div (summ (isnan_any (Mat p rows)) (scaleTau2_rho p rows c1 c2))
                                  (Fl (scaleTau2_nEs2 cdf pdf ppf (length rows) c2 consistency)))))
               (scaleTau2_sigma0 p rows)))"

section \<open>scale_data\<close>

text \<open>\<^verbatim>\<open>float(m)\<close>: of a scalar, or of an array with a single entry.\<close>

fun float_of :: "numarg \<Rightarrow> error + fl" where
  "float_of (Scalar v) = Inr v"
| "float_of (Array [v]) = Inr v"
| "float_of (Array vs) = Inl TypeError"

text \<open>
  \<^verbatim>\<open>X op np.array([v for i in range(1, n + 1)])\<close> for a matrix \<open>X\<close> of shape \<open>(n, p)\<close>:
  the right operand has shape \<open>(n,)\<close> for a scalar \<open>v\<close> and \<open>(n, k)\<close> for an array of \<open>k\<close>
  entries (\<open>(0,)\<close> when there is no row), and numpy broadcasts it or raises.
\<close>

fun tiled_op :: "(fl \<Rightarrow> fl \<Rightarrow> fl) \<Rightarrow> nat \<Rightarrow> fl list list \<Rightarrow> numarg \<Rightarrow> error + fl list list" where
  "tiled_op f p rows (Scalar v) =
     (if length rows = p \<or> length rows = 1 then Inr (map (map (\<lambda>x. f x v)) rows)
      else Inl ValueError)"
| "tiled_op f p rows (Array vs) =
     (if rows = [] then (if p = 0 then Inr [] else Inl ValueError)
      else if length vs = p then Inr (map (\<lambda>r. map2 f r vs) rows)
      else if length vs = 1 then Inr (map (map (\<lambda>x. f x (hd vs))) rows)
      else Inl ValueError)"

text \<open>\<^verbatim>\<open>Xm / s\<close> for \<open>Xm\<close> of shape \<open>(n,)\<close>, and for \<open>Xm\<close> of shape \<open>(n, 1)\<close>.\<close>

fun vec_div :: "fl list \<Rightarrow> numarg \<Rightarrow> error + ndarray" where
  "vec_div xs (Scalar d) = Inr (Vec (map (\<lambda>x. fl_div x d) xs))"
| "vec_div xs (Array ds) =
     (if length ds = length xs then Inr (Vec (map2 fl_div xs ds))
      else if length ds = 1 then Inr (Vec (map (\<lambda>x. fl_div x (hd ds)) xs))
      else if length xs = 1 then Inr (Vec (map (\<lambda>d. fl_div (hd xs) d) ds))
      else Inl ValueError)"

fun col_div :: "fl list list \<Rightarrow> numarg \<Rightarrow> ndarray" where
  "col_div rows (Scalar d) = Mat 1 (map (map (\<lambda>x. fl_div x d)) rows)"
| "col_div rows (Array ds) = Mat (length ds) (map (\<lambda>r. map (\<lambda>d. fl_div (hd r) d) ds) rows)"

text \<open>\<^verbatim>\<open>scale_data(X, m, s)\<close>\<close>

fun scale_data :: "ndarray \<Rightarrow> numarg \<Rightarrow> numarg \<Rightarrow> error + ndarray" where
  "scale_data (Vec xs) m s =
     (let s' = handle_zeros_in_scale s
      in case float_of m of
           Inl e \<Rightarrow> Inl e
         | Inr fm \<Rightarrow> vec_div (map (\<lambda>x. fl_sub x fm) xs) s')"
| "scale_data (Mat p rows) m s =
     (let s' = handle_zeros_in_scale s
      in if p = 1 then
           (case float_of m of
              Inl e \<Rightarrow> Inl e
            | Inr fm \<Rightarrow> Inr (col_div (map (map (\<lambda>x. fl_sub x fm)) rows) s'))
         else
           (case tiled_op fl_sub p rows m of
              Inl e \<Rightarrow> Inl e
            | Inr Xm \<Rightarrow>
                (case tiled_op fl_div p Xm s' of
                   Inl e \<Rightarrow> Inl e
                 | Inr Xs \<Rightarrow> Inr (Mat p Xs))))"

section \<open>Evaluation on concrete arrays\<close>

lemmas eval_defs = median_def isnan_any_def np_median_def column_def sort_le_def fl_le_def
  fl_eq_def fl_sub_def fl_gt_def fl_square_def summ_def np_sum_def np_nansum_def
  scaleTau2_xc_def scaleTau2_sigma0_def scaleTau2_w_def scaleTau2_mu_def scaleTau2_rho0_def
  scaleTau2_rho_def scaleTau2_nEs2_def Let_def signed_inf_def
  power2_eq_square upt_conv_Cons

lemma sigma0_two_by_two:
  "scaleTau2_sigma0 2 [[Fl 0, Fl 0], [Fl 2, Fl 2]] = [Fl 1, Fl 1]"
  by (simp add: eval_defs)

lemma mu_two_by_two:
  "scaleTau2_mu 2 [[Fl 0, Fl 0], [Fl 2, Fl 2]] (9 / 2) = Scalar (Fl 1)"
  by (simp add: eval_defs)

lemma rho_two_by_two:
  "scaleTau2_rho 2 [[Fl 0, Fl 0], [Fl 2, Fl 2]] (9 / 2) 3 = [[Fl 1, Fl 1], [Fl 1, Fl 1]]"
  by (simp add: sigma0_two_by_two mu_two_by_two scaleTau2_rho_def scaleTau2_rho0_def
      fl_sub_def fl_square_def fl_gt_def)

lemma sigma0_five_by_two:
  "scaleTau2_sigma0 2 [[Fl (- 2), Fl (- 10)], [Fl (- 1), Fl (- 1)], [Fl 0, Fl 0],
                       [Fl 1, Fl 1], [Fl 2, Fl 10]] = [Fl 1, Fl 1]"
  by (simp add: eval_defs)

lemma mu_five_by_two:
  "scaleTau2_mu 2 [[Fl (- 2), Fl (- 10)], [Fl (- 1), Fl (- 1)], [Fl 0, Fl 0],
                   [Fl 1, Fl 1], [Fl 2, Fl 10]] (9 / 2) = Scalar (Fl 0)"
  by (simp add: eval_defs)

lemma rho0_five_by_two:
  "scaleTau2_rho0 2 [[Fl (- 2), Fl (- 10)], [Fl (- 1), Fl (- 1)], [Fl 0, Fl 0],
                     [Fl 1, Fl 1], [Fl 2, Fl 10]] (9 / 2)
     = [[Fl 4, Fl 100], [Fl 1, Fl 1], [Fl 0, Fl 0], [Fl 1, Fl 1], [Fl 4, Fl 100]]"
  by (simp add: sigma0_five_by_two mu_five_by_two scaleTau2_rho0_def fl_sub_def fl_square_def)

section \<open>scaleTau2: normalization, Winsorization, input shapes\<close>

text \<open>
  C2. The claim: the per-column sum of the capped squares is divided by the normalizing
  constant (\<open>n\<close> when consistency is off), and the estimate of a column is \<open>sigma0\<close> times
  the square root of that quotient. On the 2 by 2 matrix with rows \<open>(0, 0)\<close> and
  \<open>(2, 2)\<close>, with the default \<open>c1 = 4.5\<close>, \<open>c2 = 3\<close> and consistency off, every capped
  square is \<open>1\<close> and \<open>sigma0\<close> is \<open>1\<close> in both columns, so the claim gives
  \<open>1 * sqrt (2 / 2) = 1\<close> for each column. The function returns \<open>sqrt 2\<close> for each:
  \<open>summ\<close> has no axis and adds up the capped squares of all columns, \<open>4\<close>, before the
  division by \<open>n = 2\<close>.
\<close>

theorem scaleTau2_sums_all_columns:
  "scaleTau2 cdf pdf ppf (Mat 2 [[Fl 0, Fl 0], [Fl 2, Fl 2]]) (9 / 2) 3 CFalse
     = Inr [Fl (sqrt 2), Fl (sqrt 2)]
   \<and> map (\<lambda>j. fl_mul (scaleTau2_sigma0 2 [[Fl 0, Fl 0], [Fl 2, Fl 2]] ! j)
               (fl_sqrt (fl_div
                  (np_sum (column j (scaleTau2_rho 2 [[Fl 0, Fl 0], [Fl 2, Fl 2]] (9 / 2) 3)))
                  (Fl 2))))
         [0, 1]
     = [Fl 1, Fl 1]"
  by (simp add: scaleTau2_def sigma0_two_by_two rho_two_by_two summ_def np_sum_def
      isnan_any_def scaleTau2_nEs2_def column_def)

text \<open>
  C3. The claim: each squared entry above \<open>c2\<^sup>2\<close> becomes \<open>c2\<^sup>2\<close> and every other entry
  is left unchanged. On the 5 by 2 matrix below (defaults \<open>c1 = 4.5\<close>, \<open>c2 = 3\<close>) the
  squares are \<open>4\<close> and \<open>100\<close> in the first and in the last row; \<open>4\<close> is not above \<open>9\<close>,
  and it is replaced by \<open>9\<close> all the same, because the assignment of line 266 indexes
  rows, not entries.
\<close>

theorem scaleTau2_caps_whole_rows:
  "scaleTau2_rho0 2 [[Fl (- 2), Fl (- 10)], [Fl (- 1), Fl (- 1)], [Fl 0, Fl 0],
                     [Fl 1, Fl 1], [Fl 2, Fl 10]] (9 / 2)
     = [[Fl 4, Fl 100], [Fl 1, Fl 1], [Fl 0, Fl 0], [Fl 1, Fl 1], [Fl 4, Fl 100]]
   \<and> scaleTau2_rho 2 [[Fl (- 2), Fl (- 10)], [Fl (- 1), Fl (- 1)], [Fl 0, Fl 0],
                      [Fl 1, Fl 1], [Fl 2, Fl 10]] (9 / 2) 3
     = [[Fl 9, Fl 9], [Fl 1, Fl 1], [Fl 0, Fl 0], [Fl 1, Fl 1], [Fl 9, Fl 9]]"
  by (simp add: rho0_five_by_two scaleTau2_rho_def fl_gt_def)

text \<open>
  C9. The claim: \<open>scaleTau2\<close> returns a scale estimate for every one-dimensional vector
  as well as for every matrix. A one-dimensional array has a shape of one entry, and
  the unpacking \<open>n, p = x.shape\<close> of line 248 raises on it, where the docstring
  announces \<open>x0: array or matrix\<close> and \<open>median\<close>, \<open>mad\<close>, \<open>l1median\<close> and \<open>scale_data\<close> take
  a vector.
\<close>

theorem scaleTau2_vector_raises:
  "scaleTau2 cdf pdf ppf (Vec [Fl 1, Fl 2, Fl 3]) (9 / 2) 3 CTrue = Inl ValueError"
  by (simp add: scaleTau2_def)

text \<open>
  The failure is the same on every one-dimensional array; on every two-dimensional
  array, whatever its entries, the tuning constants and the consistency mode,
  \<open>scaleTau2\<close> returns an array with one entry per column.
\<close>

lemma scaleTau2_shapes:
  "(\<exists>v. scaleTau2 cdf pdf ppf (Mat p rows) c1 c2 consistency = Inr v \<and> length v = p)
   \<and> scaleTau2 cdf pdf ppf (Vec xs) c1 c2 consistency = Inl ValueError"
  by (simp add: scaleTau2_def scaleTau2_sigma0_def median_def)

section \<open>l1median: the degenerate case and the starting point\<close>

text \<open>
  C4. For every input with fewer than two columns, a one-dimensional vector or a matrix
  with one column (or none), \<open>l1median\<close> returns \<open>median X\<close>, whatever the optimizer
  is and whatever keyword arguments are given: the optimizer is not consulted.
\<close>

theorem l1median_fewer_than_two_columns:
  "ncols X < 2 \<Longrightarrow> l1median minimize X x0_kw = Inr (median X)"
  by (simp add: l1median_def Let_def)

theorem l1median_fewer_than_two_columns_witness:
  "ncols (Mat 1 [[Fl 1], [Fl 3], [Fl 2]]) < 2
   \<and> l1median (\<lambda>f g x. []) (Mat 1 [[Fl 1], [Fl 3], [Fl 2]]) None = Inr [Fl 2]"
  using l1median_fewer_than_two_columns [of "Mat 1 [[Fl 1], [Fl 3], [Fl 2]]" "\<lambda>f g x. []" None]
  by (simp add: eval_defs)

text \<open>
  C8. The claim: when the caller supplies \<open>x0\<close>, the optimization starts from it and
  the solver's point is returned. With two or more columns and the keyword \<open>x0\<close>
  given, the local variable \<open>x0\<close> of \<open>l1median\<close> is never assigned (line 184 assigns
  it only when the keyword is absent), and line 198 reads it: the call raises and no
  optimization starts.
\<close>

theorem l1median_x0_keyword_unbound:
  "l1median minimize (Mat 2 [[Fl 0, Fl 0], [Fl 1, Fl 1]]) (Some [Fl 0, Fl 0])
     = Inl UnboundLocalError"
  by (simp add: l1median_def)

section \<open>The trimming fraction\<close>

text \<open>
  C6. The claim: \<open>_check_trimming\<close> raises exactly when the fraction is outside
  \<open>[0, 0.99)\<close>. At \<open>0.99\<close>, which is outside that interval, it does not raise.
\<close>

theorem check_trimming_half_open_counterexample:
  "\<not> ((check_trimming (Fl (99 / 100)) = Inl ValueError)
       = (\<not> ((0::real) \<le> 99 / 100 \<and> (99 / 100 :: real) < 99 / 100)))"
  by (simp add: check_trimming_def fl_gt_def)

text \<open>
  C6, as amended: for a finite fraction \<open>t\<close>, \<open>_check_trimming\<close> raises exactly when
  \<open>t\<close> is outside the closed interval \<open>[0, 0.99]\<close>; it raises for \<open>1.0\<close> and \<open>-0.1\<close> and
  passes for \<open>0\<close>, \<open>0.5\<close> and \<open>0.98\<close>.
\<close>

theorem check_trimming_closed_range:
  "(check_trimming (Fl t) = Inl ValueError) = (\<not> (0 \<le> t \<and> t \<le> 99 / 100))
   \<and> check_trimming (Fl 1) = Inl ValueError
   \<and> check_trimming (Fl (- 1 / 10)) = Inl ValueError
   \<and> check_trimming (Fl 0) = Inr ()
   \<and> check_trimming (Fl (1 / 2)) = Inr ()
   \<and> check_trimming (Fl (98 / 100)) = Inr ()"
  by (auto simp: check_trimming_def fl_gt_def)

theorem check_trimming_closed_range_witness:
  "check_trimming (Fl (99 / 100)) \<noteq> Inl ValueError"
  using check_trimming_closed_range [of "99 / 100"] by simp

section \<open>Finite entries\<close>

lemma is_fin_iff: "is_fin x \<longleftrightarrow> (\<exists>a. x = Fl a)"
  by (cases x) auto

lemma list_fin_map: "list_all is_fin xs \<Longrightarrow> \<exists>ys. xs = map Fl ys"
proof (induction xs)
  case Nil
  then show ?case by simp
next
  case (Cons x xs)
  then obtain a ys where "x = Fl a" "xs = map Fl ys"
    by (auto simp: is_fin_iff)
  then have "x # xs = map Fl (a # ys)" by simp
  then show ?case by (intro exI)
qed

lemma not_isnan_map_Fl [simp]: "\<not> list_ex isnan (map Fl ys)"
  by (induction ys) auto

lemma np_sum_map_Fl: "np_sum (map (\<lambda>y. Fl (f y)) ys) = Fl (sum_list (map f ys))"
  by (induction ys) (auto simp: np_sum_def)

lemma sub_map_Fl: "map2 fl_sub (map Fl xs) (map Fl ys) = map Fl (map2 (-) xs ys)"
  by (auto simp: zip_map_map fl_sub_def)

lemma square_Fl [simp]: "fl_square (Fl y) = Fl (y * y)"
  by (simp add: fl_square_def)

lemma euclidnorm_map_Fl:
  "euclidnorm (map (\<lambda>y. Fl (f y)) ys) = Fl (sqrt (sum_list (map (\<lambda>y. f y * f y) ys)))"
proof -
  have "0 \<le> sum_list (map (\<lambda>y. f y * f y) ys)"
    by (rule sum_list_nonneg) auto
  moreover have "\<not> list_ex isnan (map (\<lambda>y. Fl (f y)) ys)"
    by (induction ys) auto
  ultimately show ?thesis
    by (simp add: euclidnorm_def o_def np_sum_map_Fl)
qed

lemma zero_to_one_fin: "is_fin d \<Longrightarrow> is_fin (zero_to_one d)"
  by (simp add: zero_to_one_def)

lemma zero_to_one_no_zero: "zero_to_one d \<noteq> Fl 0" "Fl 0 \<noteq> zero_to_one d"
  by (simp_all add: zero_to_one_def fl_eq_def)

lemma zero_to_one_zero: "zero_to_one (Fl 0) = Fl 1"
  by (simp add: zero_to_one_def fl_eq_def)

lemma handle_zeros_no_zero: "Fl 0 \<notin> set (the_array (handle_zeros_in_scale s))"
  by (cases s) (auto simp: zero_to_one_no_zero)

lemma jacobian_dists_eq:
  "l1m_jacobian_dists a rows = map (\<lambda>r. zero_to_one (euclidnorm (map2 fl_sub r a))) rows"
  by (simp add: l1m_jacobian_dists_def diffmat_objective_def o_def)

lemma jacobian_dists_no_zero: "Fl 0 \<notin> set (l1m_jacobian_dists a rows)"
  unfolding l1m_jacobian_dists_def by (rule handle_zeros_no_zero)

lemma fin_sub_entry: "is_fin x \<Longrightarrow> is_fin y \<Longrightarrow> is_fin (fl_sub x y)"
  by (cases x; cases y) (auto simp: fl_sub_def)

lemma fin_div_entry: "is_fin x \<Longrightarrow> is_fin d \<Longrightarrow> d \<noteq> Fl 0 \<Longrightarrow> is_fin (fl_div x d)"
  by (cases x; cases d) auto

lemma round_trip_entry:
  "is_fin m \<Longrightarrow> is_fin d \<Longrightarrow> d \<noteq> Fl 0 \<Longrightarrow>
   fl_add (fl_mul (fl_div (fl_sub x m) d) d) m = x"
  by (cases x; cases m; cases d) (auto simp: fl_sub_def signed_inf_def)

lemma scale_data_matrix:
  assumes "list_all (\<lambda>r. length r = p) rows" and "rows \<noteq> []"
    and "length m = p" and "length s = p"
  shows "scale_data (Mat p rows) (Array m) (Array s)
         = Inr (Mat p (map (\<lambda>r. map2 fl_div (map2 fl_sub r m) (map zero_to_one s)) rows))"
proof (cases "p = 1")
  case True
  from True assms obtain m0 s0 where ms: "m = [m0]" "s = [s0]"
    by (auto simp: length_Suc_conv)
  have row: "\<And>r. r \<in> set rows \<Longrightarrow> \<exists>x. r = [x]"
    using assms(1) True by (auto simp: list_all_iff length_Suc_conv)
  have "[fl_div (hd (map (\<lambda>x. fl_sub x m0) r)) d] = map2 fl_div (map2 fl_sub r [m0]) [d]"
    if "r \<in> set rows" for r d
  proof -
    from that row obtain x where "r = [x]" by blast
    then show ?thesis by simp
  qed
  then have "map (\<lambda>r. map (fl_div (hd r)) [zero_to_one s0])
          (map (map (\<lambda>x. fl_sub x m0)) rows)
        = map (\<lambda>r. map2 fl_div (map2 fl_sub r [m0]) [zero_to_one s0]) rows"
    by simp
  then show ?thesis
    using True ms by simp
next
  case False
  then show ?thesis
    using assms by simp
qed

lemma fin_sub: 
  assumes "list_all is_fin r" and "list_all is_fin a"
  shows "list_all is_fin (map2 fl_sub r a)"
  unfolding list_all_iff
proof
  fix z assume "z \<in> set (map2 fl_sub r a)"
  then obtain x y where "(x, y) \<in> set (zip r a)" "z = fl_sub x y" by auto
  moreover from this have "x \<in> set r" "y \<in> set a"
    by (auto dest: set_zip_leftD set_zip_rightD)
  ultimately show "is_fin z"
    using assms by (auto simp: list_all_iff fin_sub_entry)
qed

lemma fin_euclidnorm: "list_all is_fin r \<Longrightarrow> is_fin (euclidnorm r)"
  using list_fin_map [of r] euclidnorm_map_Fl [of "\<lambda>y. y"] by auto

lemma fin_div_row:
  "list_all is_fin r \<Longrightarrow> is_fin d \<Longrightarrow> d \<noteq> Fl 0 \<Longrightarrow> list_all is_fin (map (\<lambda>x. fl_div x d) r)"
  by (auto simp: list_all_iff fin_div_entry)

lemma fin_div_rows:
  assumes "list_all is_fin r" and "list_all is_fin ds" and "Fl 0 \<notin> set ds"
  shows "list_all is_fin (map2 fl_div r ds)"
  unfolding list_all_iff
proof
  fix z assume "z \<in> set (map2 fl_div r ds)"
  then obtain x d where "(x, d) \<in> set (zip r ds)" "z = fl_div x d" by auto
  moreover from this have "x \<in> set r" "d \<in> set ds"
    by (auto dest: set_zip_leftD set_zip_rightD)
  ultimately show "is_fin z"
    using assms by (auto simp: list_all_iff intro!: fin_div_entry)
qed

lemma fin_jacobian_dists:
  assumes "list_all is_fin a" and "list_all is_fin (concat rows)"
  shows "list_all is_fin (l1m_jacobian_dists a rows)"
proof -
  have "is_fin (zero_to_one (euclidnorm (map2 fl_sub r a)))" if "r \<in> set rows" for r
  proof -
    from that assms(2) have "list_all is_fin r" by (auto simp: list_all_iff)
    then show ?thesis using assms(1) by (simp add: fin_sub fin_euclidnorm zero_to_one_fin)
  qed
  then show ?thesis
    by (simp add: jacobian_dists_eq list_all_iff)
qed

lemma fin_jacobian_dX:
  assumes "list_all is_fin a" and "list_all is_fin (concat rows)"
  shows "list_all is_fin (concat (l1m_jacobian_dX a rows))"
proof -
  have "list_all is_fin (map (\<lambda>x. fl_div x d) r)"
    if "(r, d) \<in> set (zip (diffmat_objective a rows) (l1m_jacobian_dists a rows))" for r d
  proof -
    from that have "r \<in> set (diffmat_objective a rows)" and d: "d \<in> set (l1m_jacobian_dists a rows)"
      by (auto dest: set_zip_leftD set_zip_rightD)
    then obtain r0 where "r0 \<in> set rows" "r = map2 fl_sub r0 a"
      by (auto simp: diffmat_objective_def)
    moreover from this assms(2) have "list_all is_fin r0"
      by (auto simp: list_all_iff)
    ultimately have "list_all is_fin r"
      using assms(1) by (simp add: fin_sub)
    moreover from d have "is_fin d"
      using fin_jacobian_dists [OF assms] by (auto simp: list_all_iff)
    moreover from d have "d \<noteq> Fl 0"
      using jacobian_dists_no_zero [of a rows] by auto
    ultimately show ?thesis by (rule fin_div_row)
  qed
  then show ?thesis
    by (auto simp: l1m_jacobian_dX_def list_all_iff)
qed

lemma coincident_row_dist:
  assumes "list_all is_fin a" and "i < length rows" and "rows ! i = a"
  shows "l1m_jacobian_dists a rows ! i = Fl 1"
proof -
  from assms(1) obtain ys where a: "a = map Fl ys"
    using list_fin_map by blast
  have "map2 fl_sub a a = map (\<lambda>y. Fl 0) ys"
    unfolding a by (induction ys) (auto simp: fl_sub_def)
  then have "euclidnorm (map2 fl_sub a a) = Fl 0"
    using euclidnorm_map_Fl [of "\<lambda>y. 0" ys] by simp
  then show ?thesis
    using assms(2,3) by (simp add: jacobian_dists_eq zero_to_one_zero)
qed

lemma scale_data_fin:
  assumes "list_all (\<lambda>r. length r = p) rows" and "rows \<noteq> []"
    and "length m = p" and "length v = p"
    and "list_all is_fin (concat rows)" and "list_all is_fin m" and "list_all is_fin v"
  shows "\<exists>Y. scale_data (Mat p rows) (Array m) (Array v) = Inr (Mat p Y)
             \<and> list_all is_fin (concat Y)"
proof -
  let ?v = "map zero_to_one v"
  have v: "list_all is_fin ?v" "Fl 0 \<notin> set ?v"
    using assms(7) by (auto simp: list_all_iff zero_to_one_fin zero_to_one_no_zero)
  have "list_all is_fin (map2 fl_div (map2 fl_sub r m) ?v)" if "r \<in> set rows" for r
  proof -
    from that assms(5) have "list_all is_fin r" by (auto simp: list_all_iff)
    then show ?thesis using assms(6) v by (intro fin_div_rows fin_sub)
  qed
  then have "list_all is_fin (concat (map (\<lambda>r. map2 fl_div (map2 fl_sub r m) ?v) rows))"
    by (auto simp: list_all_iff)
  then show ?thesis
    using scale_data_matrix [OF assms(1-4)] by blast
qed

lemma scale_data_vec_fin:
  assumes "list_all is_fin xs" and "is_fin m0" and "is_fin s0"
  shows "\<exists>ys. scale_data (Vec xs) (Scalar m0) (Scalar s0) = Inr (Vec ys) \<and> list_all is_fin ys"
proof -
  have "is_fin (fl_div (fl_sub x m0) (zero_to_one s0))" if "x \<in> set xs" for x
    using that assms
    by (auto simp: list_all_iff zero_to_one_fin zero_to_one_no_zero
        intro!: fin_div_entry fin_sub_entry)
  then show ?thesis
    by (simp add: list_all_iff)
qed

lemma round_trip_row:
  assumes "length r = length m" and "length m = length s"
    and "list_all is_fin m" and "list_all (\<lambda>d. is_fin d \<and> d \<noteq> Fl 0) s"
  shows "map2 fl_add (map2 fl_mul (map2 fl_div (map2 fl_sub r m) s) s) m = r"
  using assms
proof (induction r m s rule: list_induct3)
  case Nil
  then show ?case by simp
next
  case (Cons x xs y ys z zs)
  then show ?case by (simp add: round_trip_entry)
qed

lemma remap_no_zero:
  "list_all (\<lambda>d. is_fin d \<and> d \<noteq> Fl 0) s \<Longrightarrow> map zero_to_one s = s"
  by (induction s) (auto simp: fl_eq_def zero_to_one_def)

section \<open>scale_data and the zero divisors\<close>

lemma no_zero_remap: "Fl 0 \<notin> set s \<Longrightarrow> map zero_to_one s = s"
  by (induction s) (auto simp: zero_to_one_def fl_eq_def)

lemma is_double_int: "\<bar>k\<bar> < 2 ^ 53 \<Longrightarrow> is_double (of_int k)"
  unfolding is_double_def by (rule bexI [of _ k]) (auto intro: bexI [of _ 0])

lemma is_double_half: "is_double (1 / 2)"
  unfolding is_double_def by (rule bexI [of _ 1]) (auto intro: bexI [of _ 1])

lemma is_double_small: "is_double 0" "is_double 1" "is_double 2"
  using is_double_int [of 0] is_double_int [of 1] is_double_int [of 2] by simp_all

lemma is_double_bound:
  assumes "is_double x"
  shows "\<bar>x\<bar> < 2 ^ 1024"
proof -
  from assms obtain m :: int where m: "m \<in> {- (2 ^ 53 - 1) .. 2 ^ 53 - 1}"
    and x: "(\<exists>e \<in> {0 .. 971 :: nat}. x = of_int m * 2 ^ e)
            \<or> (\<exists>k \<in> {0 .. 1074 :: nat}. x = of_int m / 2 ^ k)"
    unfolding is_double_def by blast
  from m have "\<bar>m\<bar> \<le> 2 ^ 53 - 1" by auto
  then have "real_of_int \<bar>m\<bar> \<le> real_of_int (2 ^ 53 - 1)"
    by (rule of_int_le_iff [THEN iffD2])
  then have mr: "\<bar>real_of_int m\<bar> \<le> 2 ^ 53 - 1"
    by simp
  from x show ?thesis
  proof
    assume "\<exists>e \<in> {0 .. 971 :: nat}. x = of_int m * 2 ^ e"
    then obtain e :: nat where e: "e \<le> 971" "x = of_int m * 2 ^ e" by auto
    have "(2::real) ^ e \<le> 2 ^ 971" using e(1) by (intro power_increasing) simp_all
    then have "\<bar>real_of_int m\<bar> * 2 ^ e \<le> (2 ^ 53 - 1) * 2 ^ 971"
      using mr by (intro mult_mono) simp_all
    also have "\<dots> < (2::real) ^ 53 * 2 ^ 971" by simp
    also have "\<dots> = 2 ^ 1024" by (simp flip: power_add)
    finally show ?thesis by (simp add: e(2) abs_mult)
  next
    assume "\<exists>k \<in> {0 .. 1074 :: nat}. x = of_int m / 2 ^ k"
    then obtain k :: nat where k: "x = of_int m / 2 ^ k" by auto
    have "\<bar>real_of_int m\<bar> / 2 ^ k \<le> \<bar>real_of_int m\<bar>"
      by (simp add: field_simps mult_le_cancel_left1)
    also have "\<dots> < 2 ^ 53" using mr by simp
    also have "\<dots> \<le> (2::real) ^ 1024" by (intro power_increasing) simp_all
    finally show ?thesis by (simp add: k abs_divide)
  qed
qed

text \<open>
  An input on which the program rounds: at \<open>x = 2\<^sup>1\<^sup>0\<^sup>2\<^sup>3\<close> with location \<open>- 2\<^sup>1\<^sup>0\<^sup>2\<^sup>3\<close>
  the exact difference is \<open>2\<^sup>1\<^sup>0\<^sup>2\<^sup>4\<close>, which is no double (the program overflows to an
  infinity there).
\<close>

lemma overflow_not_exact: "\<not> exact_scaling (Fl (2 ^ 1023)) (Fl (- (2 ^ 1023))) (Fl 1)"
proof -
  have "\<not> is_double (2 ^ 1023 + 2 ^ 1023)"
    using is_double_bound [of "2 ^ 1023 + 2 ^ 1023"] by auto
  then show ?thesis
    by (simp add: exact_scaling_def fl_sub_def)
qed

text \<open>
  C7. The claim: for every matrix \<open>X\<close>, location \<open>m\<close> and scale \<open>s\<close> with no zero entries,
  \<open>Xs = scale_data X m s\<close> is \<open>(X - m) / s\<close> and \<open>Xs * s + m\<close> returns \<open>X\<close> within
  floating-point tolerance. A scale without zero entries may hold a not-a-number (what
  this module's trimmed \<open>std\<close> returns on data with a missing value) or an infinity:
  on \<open>X = 1\<close>, \<open>m = 0\<close> the inverse transform then gives not-a-number, not \<open>1\<close>.
\<close>

theorem scale_data_round_trip_counterexample:
  "Fl 0 \<notin> set [NaN]
   \<and> scale_data (Mat 1 [[Fl 1]]) (Array [Fl 0]) (Array [NaN]) = Inr (Mat 1 [[NaN]])
   \<and> map2 fl_add (map2 fl_mul [NaN] [NaN]) [Fl 0] = [NaN]
   \<and> Fl 0 \<notin> set [PosInf]
   \<and> scale_data (Mat 1 [[Fl 1]]) (Array [Fl 0]) (Array [PosInf]) = Inr (Mat 1 [[Fl 0]])
   \<and> map2 fl_add (map2 fl_mul [Fl 0] [PosInf]) [Fl 0] = [NaN]"
  by (simp add: zero_to_one_def fl_eq_def fl_sub_def signed_inf_def)

text \<open>
  C7, as amended: for every matrix \<open>X\<close> with \<open>n \<ge> 1\<close> rows of \<open>p\<close> entries and every
  location \<open>m\<close> and scale \<open>s\<close> of length \<open>p\<close> with no zero entry in \<open>s\<close>,
  \<open>scale_data X m s\<close> is \<open>(X - m) / s\<close> with \<open>m\<close> and \<open>s\<close> applied to each row. When \<open>m\<close>
  and \<open>s\<close> are finite and no operation rounds (all entries are doubles, and so are the
  exact difference and the exact quotient of every entry), the inverse transform
  \<open>Xs * s + m\<close> returns \<open>X\<close> exactly.
\<close>

theorem scale_data_exact_round_trip:
  assumes "wf (Mat p rows)" and "rows \<noteq> []" and "length m = p" and "length s = p"
    and "Fl 0 \<notin> set s"
  shows "scale_data (Mat p rows) (Array m) (Array s)
           = Inr (Mat p (map (\<lambda>r. map2 fl_div (map2 fl_sub r m) s) rows))
         \<and> (list_all is_fin m \<and> list_all is_fin s
              \<and> list_all fl_double (concat rows) \<and> list_all fl_double m \<and> list_all fl_double s
              \<and> list_all (\<lambda>r. list_all (\<lambda>(x, a, d). exact_scaling x a d) (zip r (zip m s))) rows
            \<longrightarrow> map (\<lambda>r. map2 fl_add (map2 fl_mul r s) m)
                  (map (\<lambda>r. map2 fl_div (map2 fl_sub r m) s) rows) = rows)"
proof (intro conjI impI)
  show "scale_data (Mat p rows) (Array m) (Array s)
           = Inr (Mat p (map (\<lambda>r. map2 fl_div (map2 fl_sub r m) s) rows))"
    using scale_data_matrix [of p rows m s] assms by (simp add: no_zero_remap)
  assume h: "list_all is_fin m \<and> list_all is_fin s
              \<and> list_all fl_double (concat rows) \<and> list_all fl_double m \<and> list_all fl_double s
              \<and> list_all (\<lambda>r. list_all (\<lambda>(x, a, d). exact_scaling x a d) (zip r (zip m s))) rows"
  have s: "list_all (\<lambda>d. is_fin d \<and> d \<noteq> Fl 0) s"
    using h assms(5) by (auto simp: list_all_iff)
  have "map2 fl_add (map2 fl_mul (map2 fl_div (map2 fl_sub r m) s) s) m = r"
    if "r \<in> set rows" for r
    using that assms h s by (intro round_trip_row) (auto simp: list_all_iff)
  then have "map (\<lambda>r. map2 fl_add (map2 fl_mul (map2 fl_div (map2 fl_sub r m) s) s) m) rows = rows"
    by (intro map_idI)
  then show "map (\<lambda>r. map2 fl_add (map2 fl_mul r s) m)
               (map (\<lambda>r. map2 fl_div (map2 fl_sub r m) s) rows) = rows"
    by (simp only: map_map o_def)
qed

theorem scale_data_exact_round_trip_witness:
  "wf (Mat 2 [[Fl 1, Fl 2], [Fl 3, NaN]]) \<and> [[Fl 1, Fl 2], [Fl 3, NaN]] \<noteq> []
   \<and> Fl 0 \<notin> set [Fl 2, Fl 4]
   \<and> list_all is_fin [Fl 1, Fl 2] \<and> list_all is_fin [Fl 2, Fl 4]
   \<and> list_all fl_double (concat [[Fl 1, Fl 2], [Fl 3, NaN]])
   \<and> list_all fl_double [Fl 1, Fl 2] \<and> list_all fl_double [Fl 2, Fl 4]
   \<and> list_all (\<lambda>r. list_all (\<lambda>(x, a, d). exact_scaling x a d)
                  (zip r (zip [Fl 1, Fl 2] [Fl 2, Fl 4]))) [[Fl 1, Fl 2], [Fl 3, NaN]]
   \<and> scale_data (Mat 2 [[Fl 1, Fl 2], [Fl 3, NaN]]) (Array [Fl 1, Fl 2]) (Array [Fl 2, Fl 4])
       = Inr (Mat 2 [[Fl 0, Fl 0], [Fl 1, NaN]])
   \<and> map (\<lambda>r. map2 fl_add (map2 fl_mul r [Fl 2, Fl 4]) [Fl 1, Fl 2]) [[Fl 0, Fl 0], [Fl 1, NaN]]
       = [[Fl 1, Fl 2], [Fl 3, NaN]]"
proof -
  have d: "is_double 3" "is_double 4"
    using is_double_int [of 3] is_double_int [of 4] by simp_all
  show ?thesis
    using scale_data_exact_round_trip [of 2 "[[Fl 1, Fl 2], [Fl 3, NaN]]" "[Fl 1, Fl 2]" "[Fl 2, Fl 4]"]
    by (simp add: fl_sub_def exact_scaling_def is_double_small d)
qed

text \<open>
  C5. What is used as a divisor has no zero entry. The result of
  \<open>_handle_zeros_in_scale\<close>, by which \<open>scale_data\<close> divides, has none, its zero entries
  having become \<open>1\<close> and the others being unchanged; so a finite matrix (or vector),
  location and scale, a zero scale of a constant column included, give a result with
  finite entries only, where a division by zero would have left an infinity or
  not-a-number. The distances by which \<open>_l1m_jacobian\<close> divides have no zero entry
  either; for a row equal to the finite candidate point the divisor is \<open>1\<close>, and for a
  finite candidate point and a finite matrix every quotient is finite.
\<close>

theorem zero_divisors_remapped:
  "Fl 0 \<notin> set (the_array (handle_zeros_in_scale s))
   \<and> (\<forall>j<length v. the_array (handle_zeros_in_scale (Array v)) ! j
                      = (if v ! j = Fl 0 then Fl 1 else v ! j))
   \<and> (wf (Mat p rows) \<and> rows \<noteq> [] \<and> length m = p \<and> length v = p
        \<and> list_all is_fin (concat rows) \<and> list_all is_fin m \<and> list_all is_fin v
      \<longrightarrow> (\<exists>Y. scale_data (Mat p rows) (Array m) (Array v) = Inr (Mat p Y)
               \<and> list_all is_fin (concat Y)))
   \<and> (list_all is_fin xs \<and> is_fin m0 \<and> is_fin s0
      \<longrightarrow> (\<exists>ys. scale_data (Vec xs) (Scalar m0) (Scalar s0) = Inr (Vec ys)
                \<and> list_all is_fin ys))
   \<and> Fl 0 \<notin> set (l1m_jacobian_dists a X)
   \<and> (list_all is_fin a \<and> i < length X \<and> X ! i = a \<longrightarrow> l1m_jacobian_dists a X ! i = Fl 1)
   \<and> (list_all is_fin a \<and> list_all is_fin (concat X)
      \<longrightarrow> list_all is_fin (concat (l1m_jacobian_dX a X)))"
proof (intro conjI impI allI)
  show "Fl 0 \<notin> set (the_array (handle_zeros_in_scale s))"
    by (rule handle_zeros_no_zero)
  show "the_array (handle_zeros_in_scale (Array v)) ! j = (if v ! j = Fl 0 then Fl 1 else v ! j)"
    if "j < length v" for j
    using that by (auto simp: zero_to_one_def fl_eq_def)
  show "\<exists>Y. scale_data (Mat p rows) (Array m) (Array v) = Inr (Mat p Y)
            \<and> list_all is_fin (concat Y)"
    if "wf (Mat p rows) \<and> rows \<noteq> [] \<and> length m = p \<and> length v = p
        \<and> list_all is_fin (concat rows) \<and> list_all is_fin m \<and> list_all is_fin v"
    using that by (intro scale_data_fin) simp_all
  show "\<exists>ys. scale_data (Vec xs) (Scalar m0) (Scalar s0) = Inr (Vec ys) \<and> list_all is_fin ys"
    if "list_all is_fin xs \<and> is_fin m0 \<and> is_fin s0"
    using that by (intro scale_data_vec_fin) simp_all
  show "Fl 0 \<notin> set (l1m_jacobian_dists a X)"
    by (rule jacobian_dists_no_zero)
  show "l1m_jacobian_dists a X ! i = Fl 1"
    if "list_all is_fin a \<and> i < length X \<and> X ! i = a"
    using that by (intro coincident_row_dist) simp_all
  show "list_all is_fin (concat (l1m_jacobian_dX a X))"
    if "list_all is_fin a \<and> list_all is_fin (concat X)"
    using that by (intro fin_jacobian_dX) simp_all
qed

theorem zero_divisors_remapped_witness:
  "Fl 0 \<notin> set (the_array (handle_zeros_in_scale (Array [Fl 0, Fl 2])))
   \<and> the_array (handle_zeros_in_scale (Array [Fl 0, Fl 2])) = [Fl 1, Fl 2]
   \<and> scale_data (Mat 2 [[Fl 5, Fl 1], [Fl 5, Fl 3]]) (Array [Fl 5, Fl 1]) (Array [Fl 0, Fl 2])
       = Inr (Mat 2 [[Fl 0, Fl 0], [Fl 0, Fl 1]])
   \<and> scale_data (Vec [Fl 5, Fl 5]) (Scalar (Fl 5)) (Scalar (Fl 0)) = Inr (Vec [Fl 0, Fl 0])
   \<and> Fl 0 \<notin> set (l1m_jacobian_dists [Fl 0, Fl 0] [[Fl 0, Fl 0], [Fl 3, Fl 4]])
   \<and> l1m_jacobian_dists [Fl 0, Fl 0] [[Fl 0, Fl 0], [Fl 3, Fl 4]] ! 0 = Fl 1
   \<and> list_all is_fin (concat (l1m_jacobian_dX [Fl 0, Fl 0] [[Fl 0, Fl 0], [Fl 3, Fl 4]]))"
  using zero_divisors_remapped [of "Array [Fl 0, Fl 2]" "[Fl 0, Fl 2]" 2
      "[[Fl 5, Fl 1], [Fl 5, Fl 3]]" "[Fl 5, Fl 1]" "[Fl 5, Fl 5]" "Fl 5" "Fl 0"
      "[Fl 0, Fl 0]" "[[Fl 0, Fl 0], [Fl 3, Fl 4]]" 0]
  by (simp add: fl_eq_def zero_to_one_def fl_sub_def)

section \<open>K-step LTS: the loop\<close>

lemma select_rows_filter:
  "map (\<lambda>i. rows ! i) (filter (\<lambda>i. P (map f rows ! i)) [0..<length rows])
     = filter (\<lambda>r. P (f r)) rows"
proof -
  have "filter (\<lambda>i. P (map f rows ! i)) [0..<length rows]
        = filter ((\<lambda>r. P (f r)) \<circ> (\<lambda>i. rows ! i)) [0..<length rows]"
    by (rule filter_cong) auto
  then have "map (\<lambda>i. rows ! i) (filter (\<lambda>i. P (map f rows ! i)) [0..<length rows])
        = filter (\<lambda>r. P (f r)) (map (\<lambda>i. rows ! i) [0..<length rows])"
    by (simp add: filter_map)
  then show ?thesis
    by (simp add: map_nth)
qed

lemma square_not_NegInf: "fl_square x \<noteq> NegInf"
  by (cases x) (simp_all add: fl_square_def)

lemma np_sum_total: "list_all (\<lambda>d. d \<noteq> NegInf) ds \<Longrightarrow> np_sum ds = spec_total ds"
proof (induction ds)
  case Nil
  then show ?case by (simp add: np_sum_def spec_total_def)
next
  case (Cons d ds)
  then have "np_sum ds = spec_total ds" by simp
  then have "fl_add d (spec_total ds) = spec_total (d # ds)" if "d \<noteq> NegInf"
    using that by (cases d) (auto simp: spec_total_def)
  then show ?case
    using Cons by (simp add: np_sum_def)
qed

lemma spec_sq_dist_code:
  "spec_sq_dist p rows m1 r =
     (if isnan_any (Mat p rows) then np_nansum (map fl_square (map2 fl_sub r m1))
      else np_sum (map fl_square (map2 fl_sub r m1)))"
proof -
  have a: "np_sum (map fl_square xs) = spec_total (map fl_square xs)"
    and b: "np_sum (filter (\<lambda>d. \<not> isnan d) (map fl_square xs))
         = spec_total (filter (\<lambda>d. \<not> isnan d) (map fl_square xs))" for xs
    by (rule np_sum_total, auto simp: list_all_iff square_not_NegInf)+
  show ?thesis
    unfolding spec_sq_dist_def isnan_any_def np_nansum_def Let_def entries.simps a b
    by (rule refl)
qed

lemma lts_dists_spec: "lts_dists p rows m1 = map (spec_sq_dist p rows m1) rows"
  by (simp add: lts_dists_def spec_sq_dist_code)

lemma lts_step_filter:
  "rows \<noteq> [] \<Longrightarrow> lts_step p rows m1 = Inr (mean (Mat p (spec_hsubset p rows m1)))"
  using select_rows_filter [of rows "\<lambda>d. fl_le d (spec_cutdist p rows m1)" "spec_sq_dist p rows m1"]
  by (simp add: lts_step_def lts_dists_spec lts_cutdist_def lts_hsubset_def
      spec_hsubset_def spec_cutdist_def Let_def)

lemma length_mean_Mat [simp]: "length (mean (Mat p rows)) = p"
  by (simp add: mean_def)

lemma length_spec_lts_step [simp]: "length (spec_lts_step p rows m) = p"
  by (simp add: spec_lts_step_def)

lemma fin_of_finite_or_nan: "finite_or_nan x \<Longrightarrow> \<not> isnan x \<Longrightarrow> is_fin x"
  by (cases x) auto

lemma column_subset:
  assumes "list_all (\<lambda>r. length r = p) rows" and "j < p"
  shows "set (column j rows) \<subseteq> set (concat rows)"
  using assms by (auto simp: column_def list_all_iff)

















lemma spec_iterate_Suc: "spec_iterate p rows m (Suc k) = spec_iterate p rows (spec_lts_step p rows m) k"
  by (simp add: spec_iterate_def funpow_swap1)

lemma spec_iterate_0 [simp]: "spec_iterate p rows m 0 = m"
  by (simp add: spec_iterate_def)









lemma length_np_insort [simp]: "length (np_insort x ys) = Suc (length ys)"
  by (induction ys) auto

lemma length_np_sort [simp]: "length (np_sort xs) = length xs"
  by (induction xs) auto

lemma set_np_insort [simp]: "set (np_insort x ys) = insert x (set ys)"
  by (induction ys) auto















section \<open>K-step LTS: translation\<close>

lemma sub_shift_entry: "fl_sub (fl_add x (Fl c)) (fl_add y (Fl c)) = fl_sub x y"
  by (cases x; cases y) (auto simp: fl_sub_def)

lemma isnan_shift_entry [simp]: "isnan (fl_add x (Fl c)) = isnan x"
  by (cases x) auto

lemma sort_le_shift: "sort_le (fl_add x (Fl c)) (fl_add y (Fl c)) = sort_le x y"
  by (cases x; cases y) (auto simp: sort_le_def fl_le_def fl_eq_def)

lemma shift_map_Fl: "shift (map Fl cs) r = map2 (\<lambda>x c. fl_add x (Fl c)) r cs"
  by (simp add: shift_def zip_map2 split_def)

lemma length_shift [simp]: "length (shift v r) = min (length r) (length v)"
  by (simp add: shift_def)

lemma shift_nth:
  "j < length r \<Longrightarrow> j < length v \<Longrightarrow> shift v r ! j = fl_add (r ! j) (v ! j)"
  by (simp add: shift_def)

lemma sub_shift:
  assumes "length r = length v" and "length m = length v" and "list_all is_fin v"
  shows "map2 fl_sub (shift v r) (shift v m) = map2 fl_sub r m"
proof (rule nth_equalityI)
  show "length (map2 fl_sub (shift v r) (shift v m)) = length (map2 fl_sub r m)"
    using assms by simp
  fix i assume "i < length (map2 fl_sub (shift v r) (shift v m))"
  then have i: "i < length v" "i < length r" "i < length m" using assms by auto
  with assms(3) obtain c where "v ! i = Fl c"
    by (auto simp: list_all_length is_fin_iff)
  with i show "map2 fl_sub (shift v r) (shift v m) ! i = map2 fl_sub r m ! i"
    by (simp add: shift_nth sub_shift_entry)
qed

lemma isnan_shift_row:
  assumes "length r = length v" and "list_all is_fin v"
  shows "list_ex isnan (shift v r) = list_ex isnan r"
proof -
  have "isnan (shift v r ! i) = isnan (r ! i)" if "i < length r" for i
  proof -
    from that assms obtain c where "v ! i = Fl c"
      by (auto simp: list_all_length is_fin_iff)
    with that assms(1) show ?thesis by (simp add: shift_nth)
  qed
  then show ?thesis
    using assms(1) by (auto simp: list_ex_length)
qed

lemma isnan_any_shift:
  assumes "list_all (\<lambda>r. length r = p) rows" and "length v = p" and "list_all is_fin v"
  shows "isnan_any (Mat p (map (shift v) rows)) = isnan_any (Mat p rows)"
proof -
  have "list_ex isnan (shift v r) = list_ex isnan r" if "r \<in> set rows" for r
    using that assms by (intro isnan_shift_row) (auto simp: list_all_iff)
  then show ?thesis
    by (auto simp: isnan_any_def list_ex_iff)
qed

lemma column_shift:
  assumes "list_all (\<lambda>r. length r = p) rows" and "length v = p" and "j < p"
  shows "column j (map (shift v) rows) = map (\<lambda>x. fl_add x (v ! j)) (column j rows)"
  using assms by (auto simp: column_def list_all_iff shift_nth)

lemma np_sort_shift:
  "np_sort (map (\<lambda>x. fl_add x (Fl c)) xs) = map (\<lambda>x. fl_add x (Fl c)) (np_sort xs)"
proof (induction xs)
  case Nil
  then show ?case by simp
next
  case (Cons x xs)
  have "np_insort (fl_add x (Fl c)) (map (\<lambda>x. fl_add x (Fl c)) ys)
        = map (\<lambda>x. fl_add x (Fl c)) (np_insort x ys)" for ys
    by (induction ys) (auto simp: sort_le_shift)
  with Cons show ?case by simp
qed

lemma set_np_sort [simp]: "set (np_sort xs) = set xs"
  by (induction xs) auto

lemma np_mean_shift:
  assumes "list_all is_fin xs"
  shows "np_mean (map (\<lambda>x. fl_add x (Fl c)) xs) = fl_add (np_mean xs) (Fl c)"
proof -
  from assms obtain ys where xs: "xs = map Fl ys"
    using list_fin_map by blast
  have "sum_list (map (\<lambda>y. y + c) ys) = sum_list ys + real (length ys) * c"
    by (induction ys) (auto simp: algebra_simps)
  then show ?thesis
    using np_sum_map_Fl [of "\<lambda>y. y + c" ys] np_sum_map_Fl [of "\<lambda>y. y" ys]
    by (simp add: xs np_mean_def o_def signed_inf_def field_simps)
qed

lemma np_median_shift:
  assumes "list_all is_fin xs"
  shows "np_median (map (\<lambda>x. fl_add x (Fl c)) xs) = fl_add (np_median xs) (Fl c)"
proof (cases "xs = []")
  case True
  then show ?thesis by (simp add: np_median_def)
next
  case False
  let ?s = "np_sort xs" and ?n = "length xs"
  from False have n: "0 < ?n" by simp
  have fin: "is_fin (?s ! i)" if "i < ?n" for i
  proof -
    from that have "?s ! i \<in> set ?s" by (simp del: set_np_sort)
    with assms show ?thesis by (simp add: list_all_iff)
  qed
  have nonan: "\<not> list_ex isnan xs"
    using assms by (auto simp: list_ex_iff list_all_iff is_fin_iff)
  have a: "?n div 2 < ?n" and b: "?n div 2 - 1 < ?n" using n by arith+
  from fin [OF a] fin [OF b] obtain u w where uw: "?s ! (?n div 2) = Fl u" "?s ! (?n div 2 - 1) = Fl w"
    by (auto simp: is_fin_iff)
  show ?thesis
    using False a b nonan uw
    by (simp add: np_median_def np_sort_shift Let_def list_ex_iff field_simps)
qed

lemma colwise_shift:
  assumes f: "\<And>xs c. list_all is_fin xs \<Longrightarrow> f (map (\<lambda>x. fl_add x (Fl c)) xs) = fl_add (f xs) (Fl c)"
    and wf: "list_all (\<lambda>r. length r = p) rows"
    and fon: "list_all finite_or_nan (concat rows)"
    and v: "length v = p" "list_all is_fin v"
  shows "(if isnan_any (Mat p (map (shift v) rows))
          then map (\<lambda>c. f (filter (\<lambda>x. \<not> isnan x) c)) (cols (Mat p (map (shift v) rows)))
          else map f (cols (Mat p (map (shift v) rows))))
       = shift v (if isnan_any (Mat p rows)
                  then map (\<lambda>c. f (filter (\<lambda>x. \<not> isnan x) c)) (cols (Mat p rows))
                  else map f (cols (Mat p rows)))"
proof -
  have nan: "isnan_any (Mat p (map (shift v) rows)) = isnan_any (Mat p rows)"
    using wf v by (rule isnan_any_shift)
  have col: "column j (map (shift v) rows) = map (\<lambda>x. fl_add x (v ! j)) (column j rows)"
    if "j < p" for j
    using wf v(1) that by (rule column_shift)
  have vj: "\<exists>c. v ! j = Fl c" if "j < p" for j
    using that v by (auto simp: list_all_length is_fin_iff)
  show ?thesis
  proof (cases "isnan_any (Mat p rows)")
    case True
    have "f (filter (\<lambda>x. \<not> isnan x) (column j (map (shift v) rows)))
          = fl_add (f (filter (\<lambda>x. \<not> isnan x) (column j rows))) (v ! j)" if "j < p" for j
    proof -
      from vj [OF that] obtain c where c: "v ! j = Fl c" by blast
      have "list_all is_fin (filter (\<lambda>x. \<not> isnan x) (column j rows))"
        using column_subset [OF wf that] fon
        by (auto simp: list_all_iff intro: fin_of_finite_or_nan)
      from f [OF this, of c] show ?thesis
        by (simp add: col [OF that] c filter_map o_def)
    qed
    then have "map (\<lambda>j. f (filter (\<lambda>x. \<not> isnan x) (column j (map (shift v) rows)))) [0..<p]
          = shift v (map (\<lambda>j. f (filter (\<lambda>x. \<not> isnan x) (column j rows))) [0..<p])"
      using v(1) by (intro nth_equalityI) (simp_all add: shift_nth)
    with True nan show ?thesis by (simp add: o_def)
  next
    case False
    have "f (column j (map (shift v) rows)) = fl_add (f (column j rows)) (v ! j)" if "j < p" for j
    proof -
      from vj [OF that] obtain c where c: "v ! j = Fl c" by blast
      have "is_fin x" if "x \<in> set (column j rows)" for x
      proof -
        from that column_subset [OF wf \<open>j < p\<close>] have x: "x \<in> set (concat rows)" by blast
        with False have "\<not> isnan x"
          by (auto simp: isnan_any_def list_ex_iff)
        moreover from x fon have "finite_or_nan x"
          by (auto simp: list_all_iff)
        ultimately show ?thesis by (simp add: fin_of_finite_or_nan)
      qed
      then have "list_all is_fin (column j rows)"
        by (simp add: list_all_iff)
      from f [OF this, of c] show ?thesis
        by (simp add: col [OF that] c)
    qed
    then have "map (\<lambda>j. f (column j (map (shift v) rows))) [0..<p]
          = shift v (map (\<lambda>j. f (column j rows)) [0..<p])"
      using v(1) by (intro nth_equalityI) (simp_all add: shift_nth)
    with False nan show ?thesis by (simp add: o_def)
  qed
qed

lemma median_shift:
  assumes "list_all (\<lambda>r. length r = p) rows" and "list_all finite_or_nan (concat rows)"
    and "length v = p" and "list_all is_fin v"
  shows "median (Mat p (map (shift v) rows)) = shift v (median (Mat p rows))"
proof -
  have nm: "np_nanmedian = (\<lambda>c. np_median (filter (\<lambda>x. \<not> isnan x) c))"
    by (rule ext) (simp add: np_nanmedian_def)
  show ?thesis
    unfolding median_def nm by (rule colwise_shift [of np_median, OF np_median_shift assms])
qed

lemma mean_shift:
  assumes "list_all (\<lambda>r. length r = p) rows" and "list_all finite_or_nan (concat rows)"
    and "length v = p" and "list_all is_fin v"
  shows "mean (Mat p (map (shift v) rows)) = shift v (mean (Mat p rows))"
proof -
  have nm: "np_nanmean = (\<lambda>c. np_mean (filter (\<lambda>x. \<not> isnan x) c))"
    by (rule ext) (simp add: np_nanmean_def)
  show ?thesis
    unfolding mean_def nm by (rule colwise_shift [of np_mean, OF np_mean_shift assms])
qed

lemma sq_dist_shift:
  assumes "list_all (\<lambda>r. length r = p) rows" and "length v = p" and "list_all is_fin v"
    and "length m = p" and "length r = p"
  shows "spec_sq_dist p (map (shift v) rows) (shift v m) (shift v r) = spec_sq_dist p rows m r"
  using assms by (simp add: spec_sq_dist_code isnan_any_shift sub_shift)

lemma dists_shift:
  assumes "list_all (\<lambda>r. length r = p) rows" and "length v = p" and "list_all is_fin v"
    and "length m = p"
  shows "map (spec_sq_dist p (map (shift v) rows) (shift v m)) (map (shift v) rows)
         = map (spec_sq_dist p rows m) rows"
proof -
  have "map (\<lambda>r. spec_sq_dist p (map (shift v) rows) (shift v m) (shift v r)) rows
        = map (spec_sq_dist p rows m) rows"
    using assms by (intro map_cong [OF refl]) (auto simp: list_all_iff sq_dist_shift)
  then show ?thesis
    by (simp only: map_map o_def)
qed

lemma hsubset_shift:
  assumes "list_all (\<lambda>r. length r = p) rows" and "length v = p" and "list_all is_fin v"
    and "length m = p"
  shows "spec_hsubset p (map (shift v) rows) (shift v m) = map (shift v) (spec_hsubset p rows m)"
proof -
  have cut: "spec_cutdist p (map (shift v) rows) (shift v m) = spec_cutdist p rows m"
    by (simp only: spec_cutdist_def length_map dists_shift [OF assms])
  have "filter ((\<lambda>r. fl_le (spec_sq_dist p (map (shift v) rows) (shift v m) r) (spec_cutdist p rows m))
                \<circ> shift v) rows
        = filter (\<lambda>r. fl_le (spec_sq_dist p rows m r) (spec_cutdist p rows m)) rows"
    using assms by (intro filter_cong) (auto simp: list_all_iff sq_dist_shift)
  then show ?thesis
    by (simp add: spec_hsubset_def cut filter_map)
qed

lemma step_shift:
  assumes "list_all (\<lambda>r. length r = p) rows" and "list_all finite_or_nan (concat rows)"
    and "length v = p" and "list_all is_fin v" and "length m = p"
  shows "mean (Mat p (spec_hsubset p (map (shift v) rows) (shift v m)))
         = shift v (mean (Mat p (spec_hsubset p rows m)))"
proof -
  let ?h = "spec_hsubset p rows m"
  have sub: "set ?h \<subseteq> set rows" by (auto simp: spec_hsubset_def)
  have "list_all (\<lambda>r. length r = p) ?h" "list_all finite_or_nan (concat ?h)"
    using assms(1,2) sub by (auto simp: list_all_iff)
  then have "mean (Mat p (map (shift v) ?h)) = shift v (mean (Mat p ?h))"
    using assms(3,4) by (intro mean_shift)
  then show ?thesis
    using assms by (simp add: hsubset_shift)
qed

lemma max_change_shift:
  assumes "length a = length v" and "length b = length v" and "list_all is_fin v"
  shows "max_change (shift v a) (shift v b) = max_change a b"
  using assms by (simp add: max_change_def sub_shift)

lemma kstep_loop_unfold:
  "rows \<noteq> [] \<Longrightarrow>
   kstep_loop p rows maxit tol m1 m2 it unc =
     (if unc \<and> it < maxit then
        (case max_change m1 (mean (Mat p (spec_hsubset p rows m1))) of
           Inl e \<Rightarrow> Inl e
         | Inr c \<Rightarrow> kstep_loop p rows maxit tol (mean (Mat p (spec_hsubset p rows m1))) (mean (Mat p (spec_hsubset p rows m1)))
                      (it + 1) (fl_gt c tol))
      else Inr m2)"
  by (subst kstep_loop.simps) (simp add: lts_step_filter)

lemma kstep_loop_done:
  "\<not> (unc \<and> it < maxit) \<Longrightarrow> kstep_loop p rows maxit tol m1 m2 it unc = Inr m2"
  by (subst kstep_loop.simps, rule if_not_P)

lemma kstep_loop_shift:
  assumes wf: "list_all (\<lambda>r. length r = p) rows" and ne: "rows \<noteq> []"
    and fon: "list_all finite_or_nan (concat rows)"
    and v: "length v = p" "list_all is_fin v"
  shows "length m = p \<Longrightarrow> b = nat (maxit - it) \<Longrightarrow>
         kstep_loop p (map (shift v) rows) maxit tol (shift v m) (shift v m2) it unc
         = map_sum id (shift v) (kstep_loop p rows maxit tol m m2 it unc)"
proof (induction b arbitrary: m m2 it unc)
  case 0
  then have nc: "\<not> (unc \<and> it < maxit)" by simp
  then have "kstep_loop p (map (shift v) rows) maxit tol (shift v m) (shift v m2) it unc
             = Inr (shift v m2)"
    by (rule kstep_loop_done)
  moreover from nc have "kstep_loop p rows maxit tol m m2 it unc = Inr m2"
    by (rule kstep_loop_done)
  ultimately show ?case by simp
next
  case (Suc b)
  let ?m' = "mean (Mat p (spec_hsubset p rows m))"
  have s: "mean (Mat p (spec_hsubset p (map (shift v) rows) (shift v m))) = shift v ?m'"
    using wf fon v Suc.prems(1) by (rule step_shift)
  have c: "max_change (shift v m) (shift v ?m') = max_change m ?m'"
    using v Suc.prems(1) by (intro max_change_shift) simp_all
  show ?case
  proof (cases "unc \<and> it < maxit")
    case False
    then have "kstep_loop p (map (shift v) rows) maxit tol (shift v m) (shift v m2) it unc
               = Inr (shift v m2)"
      by (rule kstep_loop_done)
    moreover from False have "kstep_loop p rows maxit tol m m2 it unc = Inr m2"
      by (rule kstep_loop_done)
    ultimately show ?thesis by simp
  next
    case True
    have A: "kstep_loop p rows maxit tol m m2 it unc
             = (case max_change m ?m' of
                  Inl e \<Rightarrow> Inl e
                | Inr c \<Rightarrow> kstep_loop p rows maxit tol ?m' ?m' (it + 1) (fl_gt c tol))"
      using True ne by (subst kstep_loop_unfold) simp_all
    have B: "kstep_loop p (map (shift v) rows) maxit tol (shift v m) (shift v m2) it unc
             = (case max_change m ?m' of
                  Inl e \<Rightarrow> Inl e
                | Inr c \<Rightarrow> kstep_loop p (map (shift v) rows) maxit tol (shift v ?m') (shift v ?m')
                             (it + 1) (fl_gt c tol))"
      using True ne by (subst kstep_loop_unfold) (simp_all add: s c split: sum.splits)
    show ?thesis
    proof (cases "max_change m ?m'")
      case (Inl e)
      then show ?thesis by (simp add: A B)
    next
      case (Inr d)
      have "length ?m' = p" by simp
      moreover from Suc.prems True have "b = nat (maxit - (it + 1))" by auto
      ultimately have "kstep_loop p (map (shift v) rows) maxit tol (shift v ?m') (shift v ?m')
                          (it + 1) (fl_gt d tol)
                       = map_sum id (shift v) (kstep_loop p rows maxit tol ?m' ?m' (it + 1) (fl_gt d tol))"
        by (rule Suc.IH)
      with Inr show ?thesis by (simp only: A B sum.case)
    qed
  qed
qed

lemma kstepLTS_shift:
  assumes "wf (Mat p rows)" and "rows \<noteq> []" and "list_all finite_or_nan (concat rows)"
    and "length v = p" and "list_all is_fin v"
    and "2 \<le> p \<longrightarrow>
           length (l1median_inner minimize p rows (median (Mat p rows))) = p
           \<and> l1median_inner minimize p (map (shift v) rows) (shift v (median (Mat p rows)))
             = shift v (l1median_inner minimize p rows (median (Mat p rows)))"
  shows "kstepLTS minimize (Mat p (map (shift v) rows)) maxit tol
         = map_sum id (shift v) (kstepLTS minimize (Mat p rows) maxit tol)"
proof -
  from assms(1) have wf: "list_all (\<lambda>r. length r = p) rows" by simp
  have med: "median (Mat p (map (shift v) rows)) = shift v (median (Mat p rows))"
    using wf assms(3,4,5) by (rule median_shift)
  obtain m0 where m0: "l1median minimize (Mat p rows) None = Inr m0"
    and len: "length m0 = p"
    and sh: "l1median minimize (Mat p (map (shift v) rows)) None = Inr (shift v m0)"
  proof (cases "p < 2")
    case True
    with that [of "median (Mat p rows)"] med show ?thesis
      by (simp add: l1median_def median_def)
  next
    case False
    with that [of "l1median_inner minimize p rows (median (Mat p rows))"] med assms(6)
    show ?thesis by (simp add: l1median_def)
  qed
  from kstep_loop_shift [OF wf assms(2,3,4,5) len refl,
      where maxit = maxit and it = 0 and tol = tol and ?m2.0 = m0 and unc = True]
  show ?thesis
    by (simp add: kstepLTS_def m0 sh)
qed

lemma is_double_frac: "\<bar>m\<bar> < 2 ^ 53 \<Longrightarrow> k \<le> 1074 \<Longrightarrow> is_double (of_int m / 2 ^ k)"
  unfolding is_double_def by (rule bexI [of _ m]) (auto intro: bexI [of _ k])

lemma small_int_fin: "small_int x \<Longrightarrow> is_fin x"
  by (cases x) auto

lemma small_int_or_nan_finite_or_nan: "small_int_or_nan x \<Longrightarrow> finite_or_nan x"
  by (cases x) auto

text \<open>The translation of a small integer by a small integer is a double: \<open>X + v\<close> is exact.\<close>

lemma small_int_shift_double:
  assumes "small_int x" and "small_int v"
  shows "fl_double (fl_add x v)"
proof -
  from assms obtain a b where x: "x = Fl a" and v: "v = Fl b"
    by (cases x; cases v) auto
  define k where "k = \<lfloor>a\<rfloor> + \<lfloor>b\<rfloor>"
  have a: "of_int \<lfloor>a\<rfloor> = a" "\<bar>a\<bar> \<le> 2 ^ 20" and b: "of_int \<lfloor>b\<rfloor> = b" "\<bar>b\<bar> \<le> 2 ^ 20"
    using assms by (simp_all add: x v)
  have ab: "a + b = of_int k"
    unfolding k_def of_int_add a(1) b(1) by (rule refl)
  have "\<bar>real_of_int k\<bar> < 2 ^ 53"
    using a(2) b(2) unfolding ab [symmetric] by simp
  then have "\<bar>k\<bar> < 2 ^ 53"
    by (metis of_int_abs of_int_less_iff of_int_numeral of_int_power)
  then show ?thesis
    using is_double_int [of k] by (simp add: x v ab)
qed

lemma step_three_rows: "spec_lts_step (Suc 0) [[Fl 0], [Fl 1], [Fl 2]] [Fl 1] = [Fl 1]"
  by (simp add: spec_lts_step_def spec_hsubset_def spec_cutdist_def spec_sq_dist_code
      spec_nan_mean_def eval_defs)

lemma iterate_three_rows: "spec_iterate (Suc 0) [[Fl 0], [Fl 1], [Fl 2]] [Fl 1] k = [Fl 1]"
  by (induction k) (simp_all add: spec_iterate_Suc step_three_rows)

lemma median_three_rows: "median (Mat (Suc 0) [[Fl 0], [Fl 1], [Fl 2]]) = [Fl 1]"
  by (simp add: eval_defs)

lemmas run_defs = kstepLTS_def l1median_def kstep_loop.simps lts_step_def lts_dists_def
  lts_cutdist_def lts_hsubset_def mean_def np_mean_def max_change_def py_max_def shift_def

lemma kstepLTS_012:
  "kstepLTS (\<lambda>f g x. x) (Mat (Suc 0) [[Fl 0], [Fl 1], [Fl 2]]) 5 (Fl (1 / 10 ^ 10)) = Inr [Fl 1]"
  by (simp add: run_defs eval_defs)

lemma kstepLTS_345:
  "kstepLTS (\<lambda>f g x. x) (Mat (Suc 0) [[Fl 3], [Fl 4], [Fl 5]]) 5 (Fl (1 / 10 ^ 10)) = Inr [Fl 4]"
  by (simp add: run_defs eval_defs)

lemma kstepLTS_rounded:
  "kstepLTS (\<lambda>f g x. x)
     (Mat (Suc 0) [[Fl (3602879701896397 / 2 ^ 54)], [Fl (5404319552844595 / 2 ^ 52)],
             [Fl (2476979795053773 / 2 ^ 50)]]) 5 (Fl (1 / 10 ^ 10))
   = Inr [Fl (25220157913274777 / 2 ^ 55)]"
  by (simp add: run_defs eval_defs)

text \<open>
  C10. The claim: \<open>kstepLTS (X + v)\<close> equals \<open>kstepLTS X + v\<close> within tolerance, for every
  \<open>X\<close> and \<open>v\<close>. Take the column \<open>X = (0, 1, 2)\<close> and \<open>v = 0.2\<close>, the double
  \<open>3602879701896397 / 2\<^sup>5\<^sup>4\<close>. The program receives, for \<open>X + v\<close>, the doubles nearest to
  the three sums: \<open>0 + v\<close> itself, \<open>5404319552844595 / 2\<^sup>5\<^sup>2\<close> (within half a unit
  \<open>2\<^sup>-\<^sup>5\<^sup>3\<close> of \<open>1 + v\<close>) and \<open>2476979795053773 / 2\<^sup>5\<^sup>0\<close> (within \<open>2\<^sup>-\<^sup>5\<^sup>2\<close> of \<open>2 + v\<close>).
  On \<open>X\<close> the first and the last row are both at squared distance \<open>1\<close> from the median,
  the cut distance: the h-subset is all of \<open>X\<close> and the estimate is \<open>1\<close>. On the rounded
  \<open>X + v\<close> the tie is gone, the h-subset is the first two rows, and the estimate is near
  \<open>0.7\<close>, not near \<open>1.2\<close>.
\<close>

theorem kstepLTS_translation_counterexample:
  "kstepLTS (\<lambda>f g x. x)
     (Mat 1 [[Fl (3602879701896397 / 2 ^ 54)], [Fl (5404319552844595 / 2 ^ 52)],
             [Fl (2476979795053773 / 2 ^ 50)]]) 5 (Fl (1 / 10 ^ 10))
     = Inr [Fl (25220157913274777 / 2 ^ 55)]
   \<and> map_sum id (shift [Fl (3602879701896397 / 2 ^ 54)])
        (kstepLTS (\<lambda>f g x. x) (Mat 1 [[Fl 0], [Fl 1], [Fl 2]]) 5 (Fl (1 / 10 ^ 10)))
     = Inr [Fl (1 + 3602879701896397 / 2 ^ 54)]
   \<and> (1 + 3602879701896397 / 2 ^ 54) - 25220157913274777 / 2 ^ 55 > (49 / 100 :: real)
   \<and> is_double (3602879701896397 / 2 ^ 54)
   \<and> is_double (5404319552844595 / 2 ^ 52)
   \<and> is_double (2476979795053773 / 2 ^ 50)
   \<and> \<bar>5404319552844595 / 2 ^ 52 - (1 + 3602879701896397 / 2 ^ 54)\<bar> < (1 / 2 ^ 53 :: real)
   \<and> \<bar>2476979795053773 / 2 ^ 50 - (2 + 3602879701896397 / 2 ^ 54)\<bar> < (1 / 2 ^ 52 :: real)"
proof -
  have "is_double (3602879701896397 / 2 ^ 54)" "is_double (5404319552844595 / 2 ^ 52)"
    "is_double (2476979795053773 / 2 ^ 50)"
    using is_double_frac [of 3602879701896397 54] is_double_frac [of 5404319552844595 52]
      is_double_frac [of 2476979795053773 50]
    by simp_all
  then show ?thesis
    using kstepLTS_rounded kstepLTS_012 by (simp add: shift_def)
qed

text \<open>
  C10, as amended: for a matrix \<open>X\<close> with fewer than two columns and \<open>1 \<le> n \<le> 2\<^sup>2\<^sup>0\<close> rows
  whose entries are integers of magnitude at most \<open>2\<^sup>2\<^sup>0\<close> (or not-a-number), an integer
  \<open>v\<close> of magnitude at most \<open>2\<^sup>2\<^sup>0\<close>, and a run on \<open>X\<close> whose estimates are all
  integer-valued - so that neither \<open>X + v\<close> nor any operation of \<open>kstepLTS\<close> rounds -
  \<open>kstepLTS (X + v)\<close> equals \<open>kstepLTS X + v\<close> exactly, for every \<open>maxit\<close> and \<open>tol\<close>.
  (With fewer than two columns the seed is the median; the optimizer is not consulted.)
\<close>

theorem kstepLTS_translation:
  assumes "wf (Mat p rows)" and "rows \<noteq> []" and "p < 2" and "length rows \<le> 2 ^ 20"
    and "list_all small_int_or_nan (concat rows)"
    and "length v = p" and "list_all small_int v"
    and "\<forall>k. list_all small_int (spec_iterate p rows (median (Mat p rows)) k)"
  shows "kstepLTS minimize (Mat p (map (shift v) rows)) maxit tol
         = map_sum id (shift v) (kstepLTS minimize (Mat p rows) maxit tol)"
proof -
  have "list_all finite_or_nan (concat rows)"
    using assms(5) by (auto simp: list_all_iff small_int_or_nan_finite_or_nan)
  moreover have "list_all is_fin v"
    using assms(7) by (auto simp: list_all_iff small_int_fin)
  ultimately show ?thesis
    using assms(1,2,3,6) by (intro kstepLTS_shift) simp_all
qed

theorem kstepLTS_translation_witness:
  "wf (Mat 1 [[Fl 0], [Fl 1], [Fl 2]]) \<and> [[Fl 0], [Fl 1], [Fl 2]] \<noteq> [] \<and> (1::nat) < 2
   \<and> length [[Fl 0], [Fl 1], [Fl 2]] \<le> 2 ^ 20
   \<and> list_all small_int_or_nan (concat [[Fl 0], [Fl 1], [Fl 2]])
   \<and> length [Fl 3] = 1 \<and> list_all small_int [Fl 3]
   \<and> (\<forall>k. list_all small_int
            (spec_iterate 1 [[Fl 0], [Fl 1], [Fl 2]] (median (Mat 1 [[Fl 0], [Fl 1], [Fl 2]])) k))
   \<and> kstepLTS (\<lambda>f g x. x) (Mat 1 [[Fl 0], [Fl 1], [Fl 2]]) 5 (Fl (1 / 10 ^ 10)) = Inr [Fl 1]
   \<and> kstepLTS (\<lambda>f g x. x) (Mat 1 (map (shift [Fl 3]) [[Fl 0], [Fl 1], [Fl 2]])) 5 (Fl (1 / 10 ^ 10))
       = Inr [Fl 4]
   \<and> kstepLTS (\<lambda>f g x. x) (Mat 1 (map (shift [Fl 3]) [[Fl 0], [Fl 1], [Fl 2]])) 5 (Fl (1 / 10 ^ 10))
       = map_sum id (shift [Fl 3])
           (kstepLTS (\<lambda>f g x. x) (Mat 1 [[Fl 0], [Fl 1], [Fl 2]]) 5 (Fl (1 / 10 ^ 10)))"
proof -
  have it: "\<forall>k. list_all small_int
            (spec_iterate 1 [[Fl 0], [Fl 1], [Fl 2]] (median (Mat 1 [[Fl 0], [Fl 1], [Fl 2]])) k)"
    by (simp add: median_three_rows iterate_three_rows)
  have eq: "kstepLTS (\<lambda>f g x. x) (Mat 1 (map (shift [Fl 3]) [[Fl 0], [Fl 1], [Fl 2]])) 5
              (Fl (1 / 10 ^ 10))
            = map_sum id (shift [Fl 3])
                (kstepLTS (\<lambda>f g x. x) (Mat 1 [[Fl 0], [Fl 1], [Fl 2]]) 5 (Fl (1 / 10 ^ 10)))"
    using it by (intro kstepLTS_translation) simp_all
  show ?thesis
    using it eq kstepLTS_012 kstepLTS_345 by (simp add: shift_def)
qed

end
